theory Spec2Isabelle
  imports Main "HOL-Library.Word"
begin

unbundle bit_operations_syntax

section \<open>The amd64 physical map layer (sys/arch/amd64/amd64/pmap.c)\<close>

text \<open>
  A shallow embedding of Hyra's amd64 pmap: page-table entries are 64-bit words, the
  walker and the mapping operations pass the kernel state explicitly, a failed
  \<open>__assert\<close> is a halt, and the C status codes are kept as the integers the
  functions return.
\<close>

subsection \<open>Machine types and page-table entry flags\<close>

type_synonym u64 = "64 word"
type_synonym vaddr_t = "64 word"
type_synonym paddr_t = "64 word"

text \<open>
  Modelled from the spec: \<open>__BIT\<close> and \<open>__TEST\<close> come from sys/cdefs.h, which is
  not part of the sources at hand. \<open>__BIT n\<close> is the 64-bit word with only bit \<open>n\<close>
  set, \<open>__TEST a mask\<close> holds when \<open>a\<close> and \<open>mask\<close> share a set bit.
\<close>

definition BIT :: "nat \<Rightarrow> u64" where
  "BIT n = push_bit n 1"

definition TEST :: "u64 \<Rightarrow> u64 \<Rightarrow> bool" where
  "TEST a msk = (a AND msk \<noteq> 0)"

definition PTE_ADDR_MASK :: u64 where "PTE_ADDR_MASK = 0x000FFFFFFFFFF000"
definition PTE_P :: u64 where "PTE_P = BIT 0"
definition PTE_RW :: u64 where "PTE_RW = BIT 1"
definition PTE_US :: u64 where "PTE_US = BIT 2"
definition PTE_PWT :: u64 where "PTE_PWT = BIT 3"
definition PTE_PCD :: u64 where "PTE_PCD = BIT 4"
definition PTE_ACC :: u64 where "PTE_ACC = BIT 5"
definition PTE_DIRTY :: u64 where "PTE_DIRTY = BIT 6"
definition PTE_PAT :: u64 where "PTE_PAT = BIT 7"
definition PTE_GLOBAL :: u64 where "PTE_GLOBAL = BIT 8"
definition PTE_NX :: u64 where "PTE_NX = BIT 63"

text \<open>
  Modelled from the spec: \<open>__assert\<close> comes from assert.h, which is not part of the
  sources at hand. A failed assertion is an unrecoverable halt: the call never returns.
\<close>

datatype halt = AssertFailed

subsection \<open>Protection flags\<close>

text \<open>
  Modelled from the spec: \<open>vm_prot_t\<close> and the \<open>PROT_*\<close> masks are declared in
  vm/pmap.h, which is not part of the sources at hand. A protection value is the set of
  capabilities requested (reading is implicit), and \<open>__TEST(prot, PROT_X)\<close> is membership.
\<close>

datatype prot_flag = PROT_WRITE | PROT_EXEC | PROT_USER

type_synonym vm_prot_t = "prot_flag set"

definition pmap_prot_to_pte :: "vm_prot_t \<Rightarrow> u64" where
  "pmap_prot_to_pte prot =
     (let pte_flags = PTE_P OR PTE_NX;
          pte_flags = (if PROT_WRITE \<in> prot then pte_flags OR PTE_RW else pte_flags);
          pte_flags = (if PROT_EXEC \<in> prot then pte_flags AND NOT PTE_NX else pte_flags);
          pte_flags = (if PROT_USER \<in> prot then pte_flags OR PTE_US else pte_flags)
      in pte_flags)"

subsection \<open>Index of a virtual address at one level\<close>

text \<open>The arm of the \<open>switch (level)\<close> statement that a level selects.\<close>

datatype level_case = Case4 | Case3 | Case2 | Case1 | CaseDefault

definition level_switch :: "8 word \<Rightarrow> level_case" where
  "level_switch level =
     (if level = 4 then Case4
      else if level = 3 then Case3
      else if level = 2 then Case2
      else if level = 1 then Case1
      else CaseDefault)"

definition pmap_get_level_index :: "8 word \<Rightarrow> vaddr_t \<Rightarrow> halt + u64" where
  "pmap_get_level_index level va =
     (if \<not> (level \<le> 4 \<and> level \<noteq> 0) then Inl AssertFailed
      else case level_switch level of
             Case4 \<Rightarrow> Inr (drop_bit 39 va AND 0x1FF)
           | Case3 \<Rightarrow> Inr (drop_bit 30 va AND 0x1FF)
           | Case2 \<Rightarrow> Inr (drop_bit 21 va AND 0x1FF)
           | Case1 \<Rightarrow> Inr (drop_bit 12 va AND 0x1FF)
           | CaseDefault \<Rightarrow> Inr 0)"

subsection \<open>Kernel state\<close>

text \<open>
  The per-core data of sys/cpu.h and sys/intr.h that the shootdown code touches.
  Modelled from the spec: both headers are not part of the sources at hand; each core
  owns one pending-flush slot and one lazily allocated interrupt-statistics record,
  whose counter is taken to be a 64-bit word.
\<close>

record intr_info =
  source :: string
  device :: string
  affinity :: nat
  count :: u64

record cpu_info =
  cpu_id :: nat
  tlb_flush_ptr :: vaddr_t
  tlb_shootdown_info :: "intr_info option"

text \<open>
  The fields \<open>id\<close> and \<open>tlb_shootdown\<close> of \<open>struct cpu_info\<close> are named
  \<open>cpu_id\<close> and \<open>tlb_shootdown_info\<close> here; the latter is \<open>None\<close> for \<open>NULL\<close>.
\<close>

text \<open>
  What the code asks of the hardware and of other subsystems is recorded as events, in
  program order; the first argument of \<open>TlbFlush\<close> and \<open>LapicSendEoi\<close> is the index
  of the core that executes the instruction. A store to a core's pending-flush slot is
  read by another core, so it is an event as well: \<open>StoreFlushPtr idx va\<close> is the
  assignment \<open>ci->tlb_flush_ptr = va\<close> for the core at index \<open>idx\<close> of the registry.
\<close>

datatype ipi_shorthand = IPI_SHORTHAND_NONE | IPI_SHORTHAND_SELF | IPI_SHORTHAND_ALL
  | IPI_SHORTHAND_OTHERS

datatype sysvec = SYSVEC_TLB | SYSVEC_OTHER nat

datatype event =
    TlbFlush nat vaddr_t
  | LapicSendIpi nat ipi_shorthand sysvec
  | LapicSendEoi nat
  | IntrRegister intr_info
  | StoreFlushPtr nat vaddr_t

text \<open>
  Memory is read and written in 8-byte words only; \<open>mem\<close> gives the word stored at an
  address. Page tables are reached through the higher-half alias of physical memory, so
  every address used is \<open>PHYS_TO_VIRT\<close> of a frame address plus eight times an index.
  \<open>frames\<close> is the sequence of results the frame allocator will hand out next, \<open>cr3\<close>
  the control register, \<open>cpus\<close> the list of known cores and \<open>curcpu\<close> the index of the
  core that executes.
\<close>

record kstate =
  mem :: "u64 \<Rightarrow> u64"
  frames :: "paddr_t list"
  cr3 :: u64
  cpus :: "cpu_info list"
  curcpu :: nat
  trace :: "event list"

text \<open>
  Constants of headers that are not part of the sources at hand (vm/vm.h, vm/pmap.h)
  are parameters of the model: the offset of the higher-half alias and the two cache
  types.
\<close>

record vm_hdr =
  VM_HIGHER_HALF :: u64
  VM_CACHE_UC :: int
  VM_CACHE_WT :: int

record vas =
  cr3_flags :: u64
  top_level :: paddr_t
  use_l5_paging :: bool
  lock :: nat

definition PHYS_TO_VIRT :: "vm_hdr \<Rightarrow> paddr_t \<Rightarrow> u64" where
  "PHYS_TO_VIRT k phys = phys + VM_HIGHER_HALF k"

text \<open>The address of \<open>tbl[idx]\<close> for a table of 8-byte entries.\<close>

definition slot :: "u64 \<Rightarrow> u64 \<Rightarrow> u64" where
  "slot tbl idx = tbl + push_bit 3 idx"

text \<open>
  Modelled from the spec: the frame allocator (vm/physseg.h) is an external service,
  \<open>allocate_frames(count) -> physical_address | failure\<close>, with 0 for failure. The
  model hands out the head of \<open>frames\<close> and fails when the list is empty.
\<close>

definition vm_alloc_pageframe :: "kstate \<Rightarrow> paddr_t \<times> kstate" where
  "vm_alloc_pageframe s =
     (case frames s of
        [] \<Rightarrow> (0, s)
      | f # fs \<Rightarrow> (f, s\<lparr>frames := fs\<rparr>))"

text \<open>
  Modelled from the spec: \<open>vm_get_page_size\<close> is 4 KiB. \<open>memset_page p\<close> is
  \<open>memset(p, 0, vm_get_page_size())\<close>: every word whose address lies in the 4096 bytes
  from \<open>p\<close> becomes 0.
\<close>

definition memset_page :: "u64 \<Rightarrow> kstate \<Rightarrow> kstate" where
  "memset_page p s = s\<lparr>mem := (\<lambda>a. if a - p < 4096 then 0 else mem s a)\<rparr>"

subsection \<open>Cross-core invalidation\<close>

text \<open>
  Modelled from the spec: \<open>this_cpu\<close>, \<open>cpu_get\<close> and \<open>cpu_count\<close> (sys/cpu.h),
  \<open>tlb_flush\<close> (machine/tlb.h), \<open>lapic_send_ipi\<close> and \<open>lapic_send_eoi\<close>
  (machine/lapic.h), \<open>intr_info_alloc\<close> and \<open>intr_register\<close> (sys/intr.h) are not part
  of the sources at hand. The registry enumerates the known cores by index; the
  hardware primitives are recorded in the trace; a fresh statistics record has counted
  nothing.
\<close>

definition this_cpu :: "kstate \<Rightarrow> cpu_info" where
  "this_cpu s = cpus s ! curcpu s"

definition cpu_get :: "cpu_info list \<Rightarrow> nat \<Rightarrow> cpu_info option" where
  "cpu_get cs idx = (if idx < length cs then Some (cs ! idx) else None)"

definition cpu_count :: "kstate \<Rightarrow> nat" where
  "cpu_count s = length (cpus s)"

definition tlb_flush :: "vaddr_t \<Rightarrow> kstate \<Rightarrow> kstate" where
  "tlb_flush va s = s\<lparr>trace := trace s @ [TlbFlush (curcpu s) va]\<rparr>"

definition lapic_send_ipi :: "nat \<Rightarrow> ipi_shorthand \<Rightarrow> sysvec \<Rightarrow> kstate \<Rightarrow> kstate" where
  "lapic_send_ipi dest sh vec s = s\<lparr>trace := trace s @ [LapicSendIpi dest sh vec]\<rparr>"

definition lapic_send_eoi :: "kstate \<Rightarrow> kstate" where
  "lapic_send_eoi s = s\<lparr>trace := trace s @ [LapicSendEoi (curcpu s)]\<rparr>"

definition intr_info_alloc :: "string \<Rightarrow> string \<Rightarrow> intr_info" where
  "intr_info_alloc src dev = \<lparr>source = src, device = dev, affinity = 0, count = 0\<rparr>"

definition intr_register :: "intr_info \<Rightarrow> kstate \<Rightarrow> kstate" where
  "intr_register info s = s\<lparr>trace := trace s @ [IntrRegister info]\<rparr>"

text \<open>The assignment \<open>ci->tlb_flush_ptr = va\<close> for the core at index \<open>idx\<close>.\<close>

definition store_flush_ptr :: "nat \<Rightarrow> vaddr_t \<Rightarrow> kstate \<Rightarrow> kstate" where
  "store_flush_ptr idx va s =
     s\<lparr>cpus := (cpus s)[idx := (cpus s ! idx)\<lparr>tlb_flush_ptr := va\<rparr>],
       trace := trace s @ [StoreFlushPtr idx va]\<rparr>"

text \<open>
  The interrupt handler, run by the core \<open>curcpu\<close>: the statistics record is set up on
  the first invocation, then the counter is incremented, the address in the core's own
  slot is flushed, the slot is cleared and the interrupt is acknowledged.
\<close>

definition tlb_shootdown_isr :: "kstate \<Rightarrow> kstate" where
  "tlb_shootdown_isr s =
     (let ci = this_cpu s;
          (intr, s1) =
            (case tlb_shootdown_info ci of
               None \<Rightarrow>
                 (let info = (intr_info_alloc ''TLB-Shootdown'' ''LAPIC-IPI'')
                               \<lparr>affinity := cpu_id ci\<rparr>
                  in (info, intr_register info s))
             | Some info \<Rightarrow> (info, s));
          intr = intr\<lparr>count := count intr + 1\<rparr>;
          s2 = s1\<lparr>cpus := (cpus s1)[curcpu s1 := ci\<lparr>tlb_shootdown_info := Some intr\<rparr>]\<rparr>;
          s3 = tlb_flush (tlb_flush_ptr ci) s2;
          s4 = store_flush_ptr (curcpu s3) 0 s3
      in lapic_send_eoi s4)"

text \<open>
  The loop of \<open>tlb_shootdown\<close>: \<open>cpu_get(idx++)\<close> until it returns \<open>NULL\<close>, skipping
  the core whose id is the caller's.
\<close>

function shootdown_loop :: "nat \<Rightarrow> vaddr_t \<Rightarrow> nat \<Rightarrow> kstate \<Rightarrow> kstate" where
  "shootdown_loop cur_id flush_va idx s =
     (case cpu_get (cpus s) idx of
        None \<Rightarrow> s
      | Some ci \<Rightarrow>
          if cpu_id ci = cur_id then shootdown_loop cur_id flush_va (idx + 1) s
          else shootdown_loop cur_id flush_va (idx + 1) (store_flush_ptr idx flush_va s))"
  by pat_completeness auto
termination
  by (relation "measure (\<lambda>(cur_id, flush_va, idx, s). length (cpus s) - idx)")
     (auto simp: cpu_get_def store_flush_ptr_def split: if_splits)

declare shootdown_loop.simps [simp del]

definition tlb_shootdown :: "vaddr_t \<Rightarrow> kstate \<Rightarrow> kstate" where
  "tlb_shootdown flush_va s =
     (let curcpu_info = this_cpu s;
          s1 = shootdown_loop (cpu_id curcpu_info) flush_va 0 s
      in lapic_send_ipi 0 IPI_SHORTHAND_OTHERS SYSVEC_TLB s1)"

definition pmap_flush :: "vaddr_t \<Rightarrow> kstate \<Rightarrow> kstate" where
  "pmap_flush va s =
     (let s1 = (if cpu_count s > 1 then tlb_shootdown va s else s)
      in tlb_flush va s1)"

subsection \<open>The page-table walker\<close>

text \<open>
  \<open>pmap_extract\<close> returns the next-level table as a pointer, \<open>0\<close> for \<open>NULL\<close>. The
  argument \<open>ctx\<close> of the C functions is never read and is left out.
\<close>

definition pmap_extract ::
  "vm_hdr \<Rightarrow> 8 word \<Rightarrow> vaddr_t \<Rightarrow> u64 \<Rightarrow> bool \<Rightarrow> kstate \<Rightarrow> halt + (u64 \<times> kstate)" where
  "pmap_extract k level va pmap allocate s =
     (case pmap_get_level_index level va of
        Inl h \<Rightarrow> Inl h
      | Inr idx \<Rightarrow>
          if TEST (mem s (slot pmap idx)) PTE_P then
            (let next = mem s (slot pmap idx) AND PTE_ADDR_MASK
             in Inr (PHYS_TO_VIRT k next, s))
          else if \<not> allocate then Inr (0, s)
          else
            (case vm_alloc_pageframe s of
               (level_alloc, s1) \<Rightarrow>
                 if \<not> (level_alloc \<noteq> 0) then Inl AssertFailed
                 else
                   (let s2 = memset_page (PHYS_TO_VIRT k level_alloc) s1;
                        s3 = s2\<lparr>mem := (mem s2)
                               (slot pmap idx := level_alloc OR (PTE_P OR PTE_RW OR PTE_US))\<rparr>
                    in Inr (PHYS_TO_VIRT k level_alloc, s3))))"

text \<open>
  \<open>pmap_get_tbl\<close> returns its status, and the leaf table through \<open>res\<close> when the
  status is 0: \<open>Inl status\<close> is a failed walk (\<open>res\<close> is not written), \<open>Inr tbl\<close> a
  walk that ended at the leaf table \<open>tbl\<close>.
\<close>

definition pmap_get_tbl ::
  "vm_hdr \<Rightarrow> vas \<Rightarrow> vaddr_t \<Rightarrow> bool \<Rightarrow> kstate \<Rightarrow> halt + ((int + u64) \<times> kstate)" where
  "pmap_get_tbl k vs va alloc s =
     (let pml4 = PHYS_TO_VIRT k (top_level vs) in
      case pmap_extract k 4 va pml4 alloc s of
        Inl h \<Rightarrow> Inl h
      | Inr (pdpt, s1) \<Rightarrow>
          if pdpt = 0 then Inr (Inl 1, s1)
          else
            (case pmap_extract k 3 va pdpt alloc s1 of
               Inl h \<Rightarrow> Inl h
             | Inr (pd, s2) \<Rightarrow>
                 if pd = 0 then Inr (Inl 1, s2)
                 else
                   (case pmap_extract k 2 va pd alloc s2 of
                      Inl h \<Rightarrow> Inl h
                    | Inr (tbl, s3) \<Rightarrow>
                        if tbl = 0 then Inr (Inl 1, s3)
                        else Inr (Inr tbl, s3))))"

subsection \<open>Mapping operations\<close>

text \<open>
  In \<open>pmap_modify_tbl\<close> the comparison binds tighter than the assignment:
  \<open>status = (pmap_get_tbl(...) != 0)\<close>.
\<close>

definition pmap_modify_tbl ::
  "vm_hdr \<Rightarrow> vas \<Rightarrow> vaddr_t \<Rightarrow> u64 \<Rightarrow> kstate \<Rightarrow> halt + (int \<times> kstate)" where
  "pmap_modify_tbl k vs va val s =
     (case pmap_get_tbl k vs va True s of
        Inl h \<Rightarrow> Inl h
      | Inr (Inl st, s1) \<Rightarrow> Inr (if st \<noteq> 0 then 1 else 0, s1)
      | Inr (Inr tbl, s1) \<Rightarrow>
          (case pmap_get_level_index 1 va of
             Inl h \<Rightarrow> Inl h
           | Inr idx \<Rightarrow>
               Inr (0, pmap_flush va (s1\<lparr>mem := (mem s1)(slot tbl idx := val)\<rparr>))))"

definition pmap_set_cache ::
  "vm_hdr \<Rightarrow> vas \<Rightarrow> vaddr_t \<Rightarrow> int \<Rightarrow> kstate \<Rightarrow> halt + (int \<times> kstate)" where
  "pmap_set_cache k vs va type s =
     (case pmap_get_tbl k vs va False s of
        Inl h \<Rightarrow> Inl h
      | Inr (Inl status, s1) \<Rightarrow> Inr (status, s1)
      | Inr (Inr tbl, s1) \<Rightarrow>
          (case pmap_get_level_index 1 va of
             Inl h \<Rightarrow> Inl h
           | Inr idx \<Rightarrow>
               if type = VM_CACHE_UC k then
                 (let s2 = s1\<lparr>mem := (mem s1)
                             (slot tbl idx := mem s1 (slot tbl idx) OR PTE_PCD)\<rparr>;
                      s3 = s2\<lparr>mem := (mem s2)
                             (slot tbl idx := mem s2 (slot tbl idx) AND NOT PTE_PWT)\<rparr>
                  in Inr (0, pmap_flush va s3))
               else if type = VM_CACHE_WT k then
                 (let s2 = s1\<lparr>mem := (mem s1)
                             (slot tbl idx := mem s1 (slot tbl idx) AND NOT PTE_PCD)\<rparr>;
                      s3 = s2\<lparr>mem := (mem s2)
                             (slot tbl idx := mem s2 (slot tbl idx) OR PTE_PWT)\<rparr>
                  in Inr (0, pmap_flush va s3))
               else Inr (1, s1)))"

text \<open>
  \<open>pmap_map\<close> keeps the entry flags in a \<open>uint32_t\<close>: the 64-bit result of
  \<open>pmap_prot_to_pte\<close> is cut to its low 32 bits and widened again for \<open>pa | flags\<close>.
\<close>

definition pmap_map ::
  "vm_hdr \<Rightarrow> vas \<Rightarrow> vaddr_t \<Rightarrow> paddr_t \<Rightarrow> vm_prot_t \<Rightarrow> kstate \<Rightarrow> halt + (int \<times> kstate)" where
  "pmap_map k vs va pa prot s =
     (let flags = (ucast (pmap_prot_to_pte prot) :: 32 word)
      in pmap_modify_tbl k vs va (pa OR ucast flags) s)"

definition pmap_unmap :: "vm_hdr \<Rightarrow> vas \<Rightarrow> vaddr_t \<Rightarrow> kstate \<Rightarrow> halt + (int \<times> kstate)" where
  "pmap_unmap k vs va s = pmap_modify_tbl k vs va 0 s"

subsection \<open>Address spaces\<close>

definition pmap_read_vas :: "kstate \<Rightarrow> vas" where
  "pmap_read_vas s =
     (let cr3_raw = cr3 s
      in \<lparr>cr3_flags = cr3_raw AND NOT PTE_ADDR_MASK,
          top_level = cr3_raw AND PTE_ADDR_MASK,
          use_l5_paging = False,
          lock = 0\<rparr>)"

definition pmap_switch_vas :: "vas \<Rightarrow> kstate \<Rightarrow> kstate" where
  "pmap_switch_vas vs s =
     (let cr3_val = cr3_flags vs OR top_level vs
      in s\<lparr>cr3 := cr3_val\<rparr>)"

text \<open>The copy loop of \<open>pmap_create_vas\<close>, from index \<open>i\<close> on.\<close>

function vas_copy_loop :: "u64 \<Rightarrow> u64 \<Rightarrow> nat \<Rightarrow> (u64 \<Rightarrow> u64) \<Rightarrow> (u64 \<Rightarrow> u64)" where
  "vas_copy_loop src dest i m =
     (if i < 512 then
        (if i < 256 then vas_copy_loop src dest (i + 1) (m(slot dest (of_nat i) := 0))
         else vas_copy_loop src dest (i + 1)
                (m(slot dest (of_nat i) := m (slot src (of_nat i)))))
      else m)"
  by pat_completeness auto
termination
  by (relation "measure (\<lambda>(src, dest, i, m). 512 - i)") auto

declare vas_copy_loop.simps [simp del]

text \<open>
  \<open>pmap_create_vas\<close> returns \<open>Inl (-1)\<close> when no root frame was obtained (\<open>res\<close> is
  not written) and \<open>Inr new_vas\<close> for status 0.
\<close>

definition pmap_create_vas :: "vm_hdr \<Rightarrow> kstate \<Rightarrow> (int + vas) \<times> kstate" where
  "pmap_create_vas k s =
     (let current_vas = pmap_read_vas s;
          new_vas = \<lparr>cr3_flags = 0, top_level = 0, use_l5_paging = False, lock = 0\<rparr>
      in case vm_alloc_pageframe s of
           (frame, s1) \<Rightarrow>
             (let new_vas = new_vas\<lparr>top_level := frame\<rparr>
              in if top_level new_vas = 0 then (Inl (- 1), s1)
                 else
                   (let src = PHYS_TO_VIRT k (top_level current_vas);
                        dest = PHYS_TO_VIRT k (top_level new_vas)
                    in (Inr new_vas, s1\<lparr>mem := vas_copy_loop src dest 0 (mem s1)\<rparr>))))"

subsection \<open>Observing a leaf entry\<close>

text \<open>
  The code has no operation that reads a translation back. \<open>leaf_entry\<close> is the entry
  of \<open>va\<close> in the leaf table that the non-allocating walk reaches, if it reaches one.
\<close>

definition leaf_entry :: "vm_hdr \<Rightarrow> vas \<Rightarrow> vaddr_t \<Rightarrow> kstate \<Rightarrow> u64 option" where
  "leaf_entry k vs va s =
     (case pmap_get_tbl k vs va False s of
        Inr (Inr tbl, s1) \<Rightarrow>
          (case pmap_get_level_index 1 va of
             Inr idx \<Rightarrow> Some (mem s1 (slot tbl idx))
           | Inl h \<Rightarrow> None)
      | Inr (Inl st, s1) \<Rightarrow> None
      | Inl h \<Rightarrow> None)"

subsection \<open>The entries a walk reads\<close>

text \<open>
  The addresses of the entries that a walk for \<open>va\<close> reads in the state \<open>s\<close>, level by
  level: the entry of the root table, the entry of the table that entry points to, and so
  on down to the leaf entry.
\<close>

definition pml4e_slot :: "vm_hdr \<Rightarrow> vas \<Rightarrow> vaddr_t \<Rightarrow> u64" where
  "pml4e_slot k vs va = slot (PHYS_TO_VIRT k (top_level vs)) (drop_bit 39 va AND 0x1FF)"

definition pdpte_slot :: "vm_hdr \<Rightarrow> vas \<Rightarrow> vaddr_t \<Rightarrow> kstate \<Rightarrow> u64" where
  "pdpte_slot k vs va s =
     slot (PHYS_TO_VIRT k (mem s (pml4e_slot k vs va) AND PTE_ADDR_MASK))
          (drop_bit 30 va AND 0x1FF)"

definition pde_slot :: "vm_hdr \<Rightarrow> vas \<Rightarrow> vaddr_t \<Rightarrow> kstate \<Rightarrow> u64" where
  "pde_slot k vs va s =
     slot (PHYS_TO_VIRT k (mem s (pdpte_slot k vs va s) AND PTE_ADDR_MASK))
          (drop_bit 21 va AND 0x1FF)"

definition pte_slot :: "vm_hdr \<Rightarrow> vas \<Rightarrow> vaddr_t \<Rightarrow> kstate \<Rightarrow> u64" where
  "pte_slot k vs va s =
     slot (PHYS_TO_VIRT k (mem s (pde_slot k vs va s) AND PTE_ADDR_MASK))
          (drop_bit 12 va AND 0x1FF)"

text \<open>
  The frames of the tables already in place on the path of \<open>va\<close>, root first, as far as
  the entries are present.
\<close>

definition path_frames :: "vm_hdr \<Rightarrow> vas \<Rightarrow> vaddr_t \<Rightarrow> kstate \<Rightarrow> paddr_t list" where
  "path_frames k vs va s =
     top_level vs #
     (if TEST (mem s (pml4e_slot k vs va)) PTE_P then
        (mem s (pml4e_slot k vs va) AND PTE_ADDR_MASK) #
        (if TEST (mem s (pdpte_slot k vs va s)) PTE_P then
           (mem s (pdpte_slot k vs va s) AND PTE_ADDR_MASK) #
           (if TEST (mem s (pde_slot k vs va s)) PTE_P then
              [mem s (pde_slot k vs va s) AND PTE_ADDR_MASK]
            else [])
         else [])
      else [])"

text \<open>
  The allocator's contract and the shape of the tree, for the path of \<open>va\<close>: the root is
  page-aligned, every frame the allocator will hand out is a frame address (it has no
  bit outside \<open>PTE_ADDR_MASK\<close>), and the tables in place and the frames to come are all
  different frames.
\<close>

definition fresh_frames :: "vm_hdr \<Rightarrow> vas \<Rightarrow> vaddr_t \<Rightarrow> kstate \<Rightarrow> bool" where
  "fresh_frames k vs va s \<longleftrightarrow>
     top_level vs AND 0xFFF = 0
     \<and> list_all (\<lambda>f. f AND PTE_ADDR_MASK = f) (frames s)
     \<and> distinct (path_frames k vs va s @ frames s)"

subsection \<open>Looking a translation up\<close>

text \<open>
  Modelled from the spec: pmap.c has no operation that looks a translation up. The
  non-allocating lookup is the walk with allocation disallowed, carried on into the leaf
  table: \<open>pmap_get_tbl\<close> with \<open>alloc = false\<close>, then \<open>pmap_extract\<close> at level 1
  with \<open>allocate = false\<close>. It reports status 1, mapping-not-found, when an
  intermediate level or the leaf entry is absent, and the page otherwise.
\<close>

definition pmap_lookup :: "vm_hdr \<Rightarrow> vas \<Rightarrow> vaddr_t \<Rightarrow> kstate \<Rightarrow> halt + (int + u64)" where
  "pmap_lookup k vs va s =
     (case pmap_get_tbl k vs va False s of
        Inl h \<Rightarrow> Inl h
      | Inr (Inl status, s1) \<Rightarrow> Inr (Inl status)
      | Inr (Inr tbl, s1) \<Rightarrow>
          (case pmap_extract k 1 va tbl False s1 of
             Inl h \<Rightarrow> Inl h
           | Inr (page, s2) \<Rightarrow> if page = 0 then Inr (Inl 1) else Inr (Inr page)))"

subsection \<open>A machine to run the scenarios on\<close>

text \<open>
  Two cores, core 0 executing; the higher-half alias at \<open>0xFFFF800000000000\<close>; an
  address space rooted in frame \<open>0x1000\<close> whose root table is empty; all memory
  zero; the allocator about to hand out the frames \<open>0x2000\<close>, \<open>0x3000\<close> and
  \<open>0x4000\<close>.
\<close>

definition hdr0 :: vm_hdr where
  "hdr0 = \<lparr>VM_HIGHER_HALF = 0xFFFF800000000000, VM_CACHE_UC = 0, VM_CACHE_WT = 1\<rparr>"

definition vas0 :: vas where
  "vas0 = \<lparr>cr3_flags = 0, top_level = 0x1000, use_l5_paging = False, lock = 0\<rparr>"

definition cpu0 :: cpu_info where
  "cpu0 = \<lparr>cpu_id = 0, tlb_flush_ptr = 0, tlb_shootdown_info = None\<rparr>"

definition cpu1 :: cpu_info where
  "cpu1 = \<lparr>cpu_id = 1, tlb_flush_ptr = 0, tlb_shootdown_info = None\<rparr>"

definition boot :: kstate where
  "boot = \<lparr>mem = (\<lambda>a. 0), frames = [0x2000, 0x3000, 0x4000], cr3 = 0x1000,
            cpus = [cpu0, cpu1], curcpu = 0, trace = []\<rparr>"

text \<open>The same machine with the three upper levels for \<open>0x400000\<close> in place.\<close>

definition walked :: kstate where
  "walked = boot\<lparr>mem := ((\<lambda>a. 0)
              (0xFFFF800000001000 := 0x2007,
               0xFFFF800000002000 := 0x3007,
               0xFFFF800000003010 := 0x4007)),
            frames := []\<rparr>"

text \<open>
  The same machine with only the level-4 entry for \<open>0x400000\<close> in place, and with the
  entries of levels 4 and 3 in place.
\<close>

definition level3_absent :: kstate where
  "level3_absent = boot\<lparr>mem := ((\<lambda>a. 0)(0xFFFF800000001000 := 0x2007)), frames := []\<rparr>"

definition level2_absent :: kstate where
  "level2_absent = boot\<lparr>mem := ((\<lambda>a. 0)
                      (0xFFFF800000001000 := 0x2007,
                       0xFFFF800000002000 := 0x3007)), frames := []\<rparr>"

text \<open>The same machine with \<open>0x400000\<close> mapped to \<open>0x100000\<close>, writable.\<close>

definition mapped :: kstate where
  "mapped = walked\<lparr>mem := (mem walked)(0xFFFF800000004000 := 0x100003)\<rparr>"

text \<open>
  The scenario machine with one kernel entry, \<open>0x5003\<close>, at index 300 of the active
  root table.
\<close>

definition kernel_root :: kstate where
  "kernel_root = boot\<lparr>mem := (mem boot)(0xFFFF800000001960 := 0x5003)\<rparr>"

subsection \<open>Observing the outcome of a call\<close>

text \<open>
  The value a call returned and the state it left, \<open>None\<close> when the call halted.
\<close>

definition returned :: "halt + ('a \<times> kstate) \<Rightarrow> 'a option" where
  "returned r = (case r of Inl h \<Rightarrow> None | Inr (x, s) \<Rightarrow> Some x)"

definition state_after :: "halt + ('a \<times> kstate) \<Rightarrow> kstate option" where
  "state_after r = (case r of Inl h \<Rightarrow> None | Inr (x, s) \<Rightarrow> Some s)"

section \<open>Auxiliary facts\<close>

subsection \<open>Words\<close>

lemmas pte_defs = BIT_def TEST_def PTE_ADDR_MASK_def PTE_P_def PTE_RW_def PTE_US_def
  PTE_PWT_def PTE_PCD_def PTE_NX_def

lemma level_cases:
  assumes "1 \<le> (level::8 word)" "level \<le> 4"
  shows "level = 1 \<or> level = 2 \<or> level = 3 \<or> level = 4"
proof -
  have "1 \<le> unat level" "unat level \<le> 4"
    using assms by (simp_all add: word_le_nat_alt)
  then have "unat level = 1 \<or> unat level = 2 \<or> unat level = 3 \<or> unat level = 4"
    by arith
  moreover have "level = of_nat (unat level)" by simp
  ultimately show ?thesis
    by (elim disjE) simp_all
qed

lemma idx_mask: "(x::u64) AND 0x1FF = take_bit 9 x"
  by (simp add: take_bit_eq_mask mask_eq_exp_minus_1)

lemma idx_lt: "(x::u64) AND 0x1FF < 512"
  using and_mask_less_size[of 9 x] by (simp add: mask_eq_exp_minus_1 word_size)

lemma and_not_or_and: "(x::u64) AND NOT m OR x AND m = x"
  by (auto simp: bit_eq_iff bit_simps)

lemma slot_in_page: "idx < 512 \<Longrightarrow> slot p idx - p < 4096"
  unfolding slot_def by (simp add: push_bit_eq_mult word_less_nat_alt unat_word_ariths)

subsection \<open>The index function\<close>

lemma level_index_lt:
  "pmap_get_level_index level va = Inr idx \<Longrightarrow> idx < 512"
  by (auto simp: pmap_get_level_index_def idx_lt split: if_splits level_case.splits)

lemma level_index_234 [simp]:
  "pmap_get_level_index 4 va = Inr (drop_bit 39 va AND 0x1FF)"
  "pmap_get_level_index 3 va = Inr (drop_bit 30 va AND 0x1FF)"
  "pmap_get_level_index 2 va = Inr (drop_bit 21 va AND 0x1FF)"
  "pmap_get_level_index 1 va = Inr (drop_bit 12 va AND 0x1FF)"
  by (simp_all add: pmap_get_level_index_def level_switch_def)

subsection \<open>What one step of the walker may write\<close>

lemma pmap_extract_frame:
  assumes "pmap_extract k level va pmap alloc s = Inr (p, s')"
      and "\<not> a - pmap < 4096" "\<not> a - p < 4096"
  shows "mem s' a = mem s a"
proof -
  obtain idx where i: "pmap_get_level_index level va = Inr idx"
    using assms(1) by (auto simp: pmap_extract_def split: sum.splits)
  have "slot pmap idx - pmap < 4096"
    using level_index_lt[OF i] by (rule slot_in_page)
  then have ne: "a \<noteq> slot pmap idx" using assms(2) by auto
  show ?thesis
    using assms(1,3) i ne
    by (auto simp: pmap_extract_def Let_def memset_page_def vm_alloc_pageframe_def
             split: if_splits list.splits)
qed

subsection \<open>The walk that does not allocate\<close>

lemma shootdown_loop_mem [simp]:
  "mem (shootdown_loop c va i s) = mem s" "frames (shootdown_loop c va i s) = frames s"
  "cr3 (shootdown_loop c va i s) = cr3 s" "curcpu (shootdown_loop c va i s) = curcpu s"
proof (induction c va i s rule: shootdown_loop.induct)
  case (1 c va i s)
  {
    case 1
    show ?case using "1.IH"(1,5)
      by (subst shootdown_loop.simps) (simp add: store_flush_ptr_def split: option.splits)
  next
    case 2
    show ?case using "1.IH"(2,6)
      by (subst shootdown_loop.simps) (simp add: store_flush_ptr_def split: option.splits)
  next
    case 3
    show ?case using "1.IH"(3,7)
      by (subst shootdown_loop.simps) (simp add: store_flush_ptr_def split: option.splits)
  next
    case 4
    show ?case using "1.IH"(4,8)
      by (subst shootdown_loop.simps) (simp add: store_flush_ptr_def split: option.splits)
  }
qed

lemma pmap_flush_mem [simp]:
  "mem (pmap_flush va s) = mem s" "frames (pmap_flush va s) = frames s"
  "cr3 (pmap_flush va s) = cr3 s" "curcpu (pmap_flush va s) = curcpu s"
  by (simp_all add: pmap_flush_def tlb_shootdown_def tlb_flush_def lapic_send_ipi_def Let_def)

lemma pmap_extract_False:
  "pmap_extract k level va pmap False s =
     (case pmap_get_level_index level va of
        Inl h \<Rightarrow> Inl h
      | Inr idx \<Rightarrow>
          Inr (if TEST (mem s (slot pmap idx)) PTE_P
               then PHYS_TO_VIRT k (mem s (slot pmap idx) AND PTE_ADDR_MASK) else 0, s))"
  by (simp add: pmap_extract_def Let_def split: sum.splits)

lemma pmap_get_tbl_False_total:
  "\<exists>r. pmap_get_tbl k vs va False s = Inr (r, s)"
  by (simp add: pmap_get_tbl_def pmap_extract_False Let_def)

lemma pmap_get_tbl_False_state:
  "pmap_get_tbl k vs va False s = Inr (r, s') \<Longrightarrow> s' = s"
  using pmap_get_tbl_False_total[of k vs va s] by auto

lemma pmap_get_tbl_False_cong:
  assumes "\<And>a. TEST (mem s' a) PTE_P = TEST (mem s a) PTE_P"
      and "\<And>a. mem s' a AND PTE_ADDR_MASK = mem s a AND PTE_ADDR_MASK"
  shows "pmap_get_tbl k vs va False s' = Inr (r, s') \<longleftrightarrow> pmap_get_tbl k vs va False s = Inr (r, s)"
  by (simp add: pmap_get_tbl_def pmap_extract_False Let_def assms)

lemma leaf_entry_Some:
  "leaf_entry k vs va s = Some e \<longleftrightarrow>
     (\<exists>tbl. pmap_get_tbl k vs va False s = Inr (Inr tbl, s)
        \<and> e = mem s (slot tbl (drop_bit 12 va AND 0x1FF)))"
  using pmap_get_tbl_False_total[of k vs va s]
  by (auto simp: leaf_entry_def split: sum.splits)

lemma leaf_entry_None:
  "leaf_entry k vs va s = None \<longleftrightarrow> (\<exists>st. pmap_get_tbl k vs va False s = Inr (Inl st, s))"
  using pmap_get_tbl_False_total[of k vs va s]
  by (auto simp: leaf_entry_def split: sum.splits)

lemma pmap_get_tbl_False_status:
  "pmap_get_tbl k vs va False s = Inr (Inl st, s') \<Longrightarrow> st = 1"
  by (auto simp: pmap_get_tbl_def pmap_extract_False Let_def split: if_splits)

lemma flag_update_keeps:
  fixes e :: u64
  assumes "c AND m = 0" "w AND m = 0"
  shows "((e OR c) AND NOT w) AND m = e AND m" "((e AND NOT c) OR w) AND m = e AND m"
  using assms by (auto simp: bit_eq_iff bit_simps)

lemma cache_bits_off_walk:
  "PTE_PCD AND PTE_P = 0" "PTE_PWT AND PTE_P = 0"
  "PTE_PCD AND PTE_ADDR_MASK = 0" "PTE_PWT AND PTE_ADDR_MASK = 0"
  by (simp_all add: pte_defs)

lemma flag_update_sets:
  fixes e :: u64
  assumes "c AND w = 0"
  shows "((e OR c) AND NOT w) AND c = c" "((e OR c) AND NOT w) AND w = 0"
        "((e AND NOT c) OR w) AND c = 0" "((e AND NOT c) OR w) AND w = w"
  using assms by (auto simp: bit_eq_iff bit_simps)

lemma cache_bits:
  "TEST ((e OR PTE_PCD) AND NOT PTE_PWT) PTE_PCD" "\<not> TEST ((e OR PTE_PCD) AND NOT PTE_PWT) PTE_PWT"
  "\<not> TEST ((e AND NOT PTE_PCD) OR PTE_PWT) PTE_PCD" "TEST ((e AND NOT PTE_PCD) OR PTE_PWT) PTE_PWT"
proof -
  have d: "PTE_PCD AND PTE_PWT = 0" "PTE_PCD \<noteq> 0" "PTE_PWT \<noteq> 0" by (simp_all add: pte_defs)
  show "TEST ((e OR PTE_PCD) AND NOT PTE_PWT) PTE_PCD" "\<not> TEST ((e OR PTE_PCD) AND NOT PTE_PWT) PTE_PWT"
  "\<not> TEST ((e AND NOT PTE_PCD) OR PTE_PWT) PTE_PCD" "TEST ((e AND NOT PTE_PCD) OR PTE_PWT) PTE_PWT"
    unfolding TEST_def using d by (simp_all add: flag_update_sets)
qed

lemma set_cache_mapped:
  assumes "pmap_get_tbl k vs va False s = Inr (Inr tbl, s)"
  shows "pmap_set_cache k vs va type s =
     (let a = slot tbl (drop_bit 12 va AND 0x1FF) in
      if type = VM_CACHE_UC k then
        Inr (0, pmap_flush va (s\<lparr>mem := (mem s)(a := (mem s a OR PTE_PCD) AND NOT PTE_PWT)\<rparr>))
      else if type = VM_CACHE_WT k then
        Inr (0, pmap_flush va (s\<lparr>mem := (mem s)(a := (mem s a AND NOT PTE_PCD) OR PTE_PWT)\<rparr>))
      else Inr (1, s))"
  by (simp add: pmap_set_cache_def assms Let_def)

lemma walk_after_flag_update:
  assumes "e' AND PTE_P = mem s a AND PTE_P" "e' AND PTE_ADDR_MASK = mem s a AND PTE_ADDR_MASK"
  shows "pmap_get_tbl k vs va False (pmap_flush fva (s\<lparr>mem := (mem s)(a := e')\<rparr>))
           = Inr (r, pmap_flush fva (s\<lparr>mem := (mem s)(a := e')\<rparr>))
         \<longleftrightarrow> pmap_get_tbl k vs va False s = Inr (r, s)"
  by (rule pmap_get_tbl_False_cong) (simp_all add: TEST_def assms)

subsection \<open>Cache flags\<close>

lemma flag_update_idem:
  fixes e :: u64
  shows "(((e OR c) AND NOT w) OR c) AND NOT w = (e OR c) AND NOT w"
        "(((e AND NOT c) OR w) AND NOT c) OR w = (e AND NOT c) OR w"
  by (auto simp: bit_eq_iff bit_simps)

lemma set_cache_uc_step:
  assumes "pmap_get_tbl k vs va False s = Inr (Inr tbl, s)"
  shows "\<exists>s1. pmap_set_cache k vs va (VM_CACHE_UC k) s = Inr (0, s1)
          \<and> pmap_get_tbl k vs va False s1 = Inr (Inr tbl, s1)
          \<and> mem s1 = (mem s)(slot tbl (drop_bit 12 va AND 0x1FF) :=
                (mem s (slot tbl (drop_bit 12 va AND 0x1FF)) OR PTE_PCD) AND NOT PTE_PWT)"
  using assms
  by (simp add: set_cache_mapped Let_def walk_after_flag_update flag_update_keeps
        cache_bits_off_walk)

lemma set_cache_wt_step:
  assumes "pmap_get_tbl k vs va False s = Inr (Inr tbl, s)" "VM_CACHE_WT k \<noteq> VM_CACHE_UC k"
  shows "\<exists>s1. pmap_set_cache k vs va (VM_CACHE_WT k) s = Inr (0, s1)
          \<and> pmap_get_tbl k vs va False s1 = Inr (Inr tbl, s1)
          \<and> mem s1 = (mem s)(slot tbl (drop_bit 12 va AND 0x1FF) :=
                (mem s (slot tbl (drop_bit 12 va AND 0x1FF)) AND NOT PTE_PCD) OR PTE_PWT)"
  using assms
  by (simp add: set_cache_mapped Let_def walk_after_flag_update flag_update_keeps
        cache_bits_off_walk)

subsection \<open>Unmapping where the tables are in place\<close>

lemma pmap_get_tbl_True_of_False:
  assumes "pmap_get_tbl k vs va False s = Inr (Inr tbl, s)"
  shows "pmap_get_tbl k vs va True s = Inr (Inr tbl, s)"
  using assms
  by (auto simp: pmap_get_tbl_def pmap_extract_def Let_def split: if_splits)

lemma pmap_unmap_walked:
  assumes "pmap_get_tbl k vs va False s = Inr (Inr tbl, s)"
  shows "pmap_unmap k vs va s =
           Inr (0, pmap_flush va (s\<lparr>mem := (mem s)(slot tbl (drop_bit 12 va AND 0x1FF) := 0)\<rparr>))"
  by (simp add: pmap_unmap_def pmap_modify_tbl_def pmap_get_tbl_True_of_False[OF assms])

subsection \<open>The flags kept in 32 bits\<close>

lemma uint32_high_bits:
  "32 \<le> n \<Longrightarrow> (ucast (ucast (x::u64) :: 32 word) :: u64) AND push_bit n 1 = 0"
  by (rule bit_word_eqI) (auto simp: bit_simps)

lemma pmap_map_flags_lose_nx:
  "\<not> TEST (ucast (ucast (pmap_prot_to_pte prot) :: 32 word)) PTE_NX"
  unfolding TEST_def PTE_NX_def BIT_def
  using uint32_high_bits[of 63 "pmap_prot_to_pte prot"] by simp

subsection \<open>The copy loop of address-space creation\<close>

lemma low12_of_sum:
  fixes a x :: u64
  assumes "a AND 0xFFF = 0" "x < 4096"
  shows "(a + x) AND 0xFFF = x"
proof -
  have m: "(0xFFF::u64) = mask 12" by (simp add: mask_eq_exp_minus_1)
  have x0: "x AND mask 12 = x" using assms(2) by (intro less_mask_eq) simp
  have a0: "a AND mask 12 = 0" using assms(1) by (simp add: m)
  have "a AND x = a AND (x AND mask 12)" by (simp add: x0)
  also have "\<dots> = (a AND mask 12) AND x" by (simp add: ac_simps)
  finally have "a AND x = 0" by (simp add: a0)
  then have "a + x = a OR x" by (rule disjunctive_add_eq_or)
  then have "(a + x) AND mask 12 = (a AND mask 12) OR (x AND mask 12)"
    by (simp add: word_ao_dist)
  then show ?thesis by (simp add: m a0 x0)
qed

lemma entry_offset:
  "i < 512 \<Longrightarrow> push_bit 3 (of_nat i :: u64) < 4096"
  "i < 512 \<Longrightarrow> unat (push_bit 3 (of_nat i :: u64)) = 8 * i"
  by (simp_all add: push_bit_eq_mult word_less_nat_alt unat_word_ariths unat_of_nat)

lemma entry_offset_inj:
  assumes "i < 512" "j < 512" "push_bit 3 (of_nat i :: u64) = push_bit 3 (of_nat j)"
  shows "i = j"
proof -
  have "unat (push_bit 3 (of_nat i :: u64)) = unat (push_bit 3 (of_nat j :: u64))"
    using assms(3) by simp
  then show ?thesis using assms(1,2) by (simp add: entry_offset)
qed

lemma slot_same_table_inj:
  "i < 512 \<Longrightarrow> j < 512 \<Longrightarrow> slot p (of_nat i) = slot p (of_nat j) \<Longrightarrow> i = j"
  by (auto simp: slot_def dest: entry_offset_inj)

lemma slot_aligned_inj:
  assumes "a AND 0xFFF = 0" "b AND 0xFFF = 0" "i < 512" "j < 512"
      and "slot (PHYS_TO_VIRT k a) (of_nat i) = slot (PHYS_TO_VIRT k b) (of_nat j)"
  shows "i = j"
proof -
  have "a + push_bit 3 (of_nat i) = b + push_bit 3 (of_nat j)"
    using assms(5) by (simp add: slot_def PHYS_TO_VIRT_def)
  then have "(a + push_bit 3 (of_nat i)) AND 0xFFF = (b + push_bit 3 (of_nat j)) AND 0xFFF"
    by simp
  then have "push_bit 3 (of_nat i :: u64) = push_bit 3 (of_nat j)"
    using assms(1-4) by (simp add: low12_of_sum entry_offset)
  then show ?thesis using assms(3,4) by (rule entry_offset_inj[rotated 2])
qed

lemma vas_copy_loop_outside:
  "(\<And>j. i \<le> j \<Longrightarrow> j < 512 \<Longrightarrow> a \<noteq> slot dest (of_nat j)) \<Longrightarrow>
     vas_copy_loop src dest i m a = m a"
proof (induction src dest i m rule: vas_copy_loop.induct)
  case (1 src dest i m)
  show ?case
  proof (cases "i < 512")
    case False
    then show ?thesis by (simp add: vas_copy_loop.simps[of src dest i m])
  next
    case True
    have ne: "a \<noteq> slot dest (of_nat i)" using "1.prems"[of i] True by simp
    show ?thesis
    proof (cases "i < 256")
      case True
      have "vas_copy_loop src dest (i + 1) (m(slot dest (of_nat i) := 0)) a
              = (m(slot dest (of_nat i) := 0)) a"
        using "1.prems" \<open>i < 512\<close> True by (intro "1.IH"(1)) auto
      then show ?thesis using True ne by (simp add: vas_copy_loop.simps[of src dest i m])
    next
      case False
      have "vas_copy_loop src dest (i + 1) (m(slot dest (of_nat i) := m (slot src (of_nat i)))) a
              = (m(slot dest (of_nat i) := m (slot src (of_nat i)))) a"
        using "1.prems" \<open>i < 512\<close> False by (intro "1.IH"(2)) auto
      then show ?thesis using False \<open>i < 512\<close> ne
        by (simp add: vas_copy_loop.simps[of src dest i m])
    qed
  qed
qed

lemma vas_copy_loop_inside:
  "(\<And>j j'. j < 512 \<Longrightarrow> j' < 512 \<Longrightarrow>
       slot dest (of_nat j') = slot src (of_nat j) \<Longrightarrow> j' = j) \<Longrightarrow>
   i \<le> j \<Longrightarrow> j < 512 \<Longrightarrow>
     vas_copy_loop src dest i m (slot dest (of_nat j))
       = (if j < 256 then 0 else m (slot src (of_nat j)))"
proof (induction src dest i m rule: vas_copy_loop.induct)
  case (1 src dest i m)
  note nc = "1.prems"(1)
  have i512: "i < 512" using "1.prems" by simp
  let ?v = "if i < 256 then 0 else m (slot src (of_nat i))"
  let ?m' = "m(slot dest (of_nat i) := ?v)"
  have step: "vas_copy_loop src dest i m = vas_copy_loop src dest (i + 1) ?m'"
    using i512 by (simp add: vas_copy_loop.simps[of src dest i m])
  show ?case
  proof (cases "i = j")
    case True
    have out: "vas_copy_loop src dest (i + 1) ?m' (slot dest (of_nat j)) = ?m' (slot dest (of_nat j))"
    proof (rule vas_copy_loop_outside)
      fix j' assume "i + 1 \<le> j'" "j' < 512"
      then show "slot dest (of_nat j) \<noteq> slot dest (of_nat j')"
        using True i512 slot_same_table_inj[of j j' dest] by auto
    qed
    have "vas_copy_loop src dest i m (slot dest (of_nat j)) = ?m' (slot dest (of_nat j))"
      by (simp only: step out)
    also have "\<dots> = (if j < 256 then 0 else m (slot src (of_nat j)))"
      using True by simp
    finally show ?thesis .
  next
    case False
    then have lt: "i + 1 \<le> j" using "1.prems" by simp
    have ne: "slot src (of_nat j) \<noteq> slot dest (of_nat i)"
    proof
      assume eq: "slot src (of_nat j) = slot dest (of_nat i)"
      from nc[OF "1.prems"(3) i512 eq[symmetric]] False show False by simp
    qed
    have rec: "vas_copy_loop src dest (i + 1) ?m' (slot dest (of_nat j))
            = (if j < 256 then 0 else ?m' (slot src (of_nat j)))"
    proof (cases "i < 256")
      case True
      have "vas_copy_loop src dest (i + 1) (m(slot dest (of_nat i) := 0)) (slot dest (of_nat j))
            = (if j < 256 then 0 else (m(slot dest (of_nat i) := 0)) (slot src (of_nat j)))"
        by (rule "1.IH"(1)[OF i512 True nc lt "1.prems"(3)])
      then show ?thesis using True by simp
    next
      case False
      have "vas_copy_loop src dest (i + 1) (m(slot dest (of_nat i) := m (slot src (of_nat i))))
              (slot dest (of_nat j))
            = (if j < 256 then 0
               else (m(slot dest (of_nat i) := m (slot src (of_nat i)))) (slot src (of_nat j)))"
        by (rule "1.IH"(2)[OF i512 False nc lt "1.prems"(3)])
      then show ?thesis using False by simp
    qed
    have "vas_copy_loop src dest i m (slot dest (of_nat j))
            = (if j < 256 then 0 else ?m' (slot src (of_nat j)))"
      by (simp only: step rec)
    also have "\<dots> = (if j < 256 then 0 else m (slot src (of_nat j)))"
      using ne by simp
    finally show ?thesis .
  qed
qed

lemma read_vas_top_aligned: "top_level (pmap_read_vas s) AND 0xFFF = 0"
proof -
  have "PTE_ADDR_MASK AND 0xFFF = 0" by (simp add: PTE_ADDR_MASK_def)
  then show ?thesis
    by (simp add: pmap_read_vas_def Let_def and.assoc)
qed

lemma pmap_create_vas_ok:
  assumes "frames s = f # fs" "f \<noteq> 0"
  shows "pmap_create_vas k s =
           (Inr \<lparr>cr3_flags = 0, top_level = f, use_l5_paging = False, lock = 0\<rparr>,
            s\<lparr>frames := fs,
              mem := vas_copy_loop (PHYS_TO_VIRT k (top_level (pmap_read_vas s)))
                       (PHYS_TO_VIRT k f) 0 (mem s)\<rparr>)"
  using assms by (simp add: pmap_create_vas_def vm_alloc_pageframe_def Let_def pmap_read_vas_def)

subsection \<open>Invalidation after a mapping change\<close>

lemma shootdown_loop_two_cores:
  assumes "cpus s = [c0, c1]" "cpu_id c0 \<noteq> cpu_id c1"
  shows "shootdown_loop (cpu_id c0) va 0 s = store_flush_ptr 1 va s"
proof -
  have "shootdown_loop (cpu_id c0) va 0 s = shootdown_loop (cpu_id c0) va 1 s"
    using assms by (subst shootdown_loop.simps) (simp add: cpu_get_def)
  also have "\<dots> = shootdown_loop (cpu_id c0) va 2 (store_flush_ptr 1 va s)"
    using assms by (subst shootdown_loop.simps) (simp add: cpu_get_def eval_nat_numeral)
  also have "\<dots> = store_flush_ptr 1 va s"
    using assms by (subst shootdown_loop.simps) (simp add: cpu_get_def store_flush_ptr_def)
  finally show ?thesis .
qed

lemma pmap_flush_two_cores:
  assumes "cpus s = [c0, c1]" "curcpu s = 0" "cpu_id c0 \<noteq> cpu_id c1"
  shows "pmap_flush va s =
           tlb_flush va (lapic_send_ipi 0 IPI_SHORTHAND_OTHERS SYSVEC_TLB
             (store_flush_ptr 1 va s))"
  using assms
  by (simp add: pmap_flush_def cpu_count_def tlb_shootdown_def this_cpu_def Let_def
        shootdown_loop_two_cores)

lemma pmap_extract_others:
  "pmap_extract k l va p al s = Inr (q, s') \<Longrightarrow>
     cpus s' = cpus s \<and> curcpu s' = curcpu s \<and> trace s' = trace s \<and> cr3 s' = cr3 s"
  by (auto simp: pmap_extract_def Let_def memset_page_def vm_alloc_pageframe_def
           split: sum.splits if_splits list.splits)

lemma pmap_get_tbl_others:
  assumes "pmap_get_tbl k vs va al s = Inr (r, s')"
  shows "cpus s' = cpus s \<and> curcpu s' = curcpu s \<and> trace s' = trace s \<and> cr3 s' = cr3 s"
proof -
  from assms obtain p1 s1 where e1:
      "pmap_extract k 4 va (PHYS_TO_VIRT k (top_level vs)) al s = Inr (p1, s1)"
    by (auto simp: pmap_get_tbl_def Let_def split: sum.splits)
  note o1 = pmap_extract_others[OF e1]
  show ?thesis
  proof (cases "p1 = 0")
    case True
    then show ?thesis using assms e1 o1 by (simp add: pmap_get_tbl_def Let_def)
  next
    case n1: False
    from assms e1 n1 obtain p2 s2 where e2: "pmap_extract k 3 va p1 al s1 = Inr (p2, s2)"
      by (auto simp: pmap_get_tbl_def Let_def split: sum.splits)
    note o2 = pmap_extract_others[OF e2]
    show ?thesis
    proof (cases "p2 = 0")
      case True
      then show ?thesis using assms e1 n1 e2 o1 o2 by (simp add: pmap_get_tbl_def Let_def)
    next
      case n2: False
      from assms e1 n1 e2 n2 obtain p3 s3 where e3: "pmap_extract k 2 va p2 al s2 = Inr (p3, s3)"
        by (auto simp: pmap_get_tbl_def Let_def split: sum.splits)
      note o3 = pmap_extract_others[OF e3]
      show ?thesis using assms e1 n1 e2 n2 e3 o1 o2 o3
        by (auto simp: pmap_get_tbl_def Let_def split: if_splits)
    qed
  qed
qed

lemma pmap_get_tbl_status:
  assumes "pmap_get_tbl k vs va al s = Inr (Inl st, s')"
  shows "st = 1"
proof -
  have "\<forall>st s'. r = Inr (Inl st, s') \<longrightarrow> st = 1" if "r = pmap_get_tbl k vs va al s" for r
    using that unfolding pmap_get_tbl_def Let_def
    by (auto split: sum.splits if_splits)
  then show ?thesis using assms by metis
qed

lemma pmap_modify_tbl_flushes:
  assumes "pmap_modify_tbl k vs va val s = Inr (0, s')"
  shows "\<exists>sm. s' = pmap_flush va sm \<and> cpus sm = cpus s \<and> curcpu sm = curcpu s
            \<and> trace sm = trace s"
proof -
  from assms obtain r s1 where g: "pmap_get_tbl k vs va True s = Inr (r, s1)"
    by (auto simp: pmap_modify_tbl_def split: sum.splits)
  note o = pmap_get_tbl_others[OF g]
  show ?thesis
  proof (cases r)
    case (Inl st)
    with g have "st = 1" by (auto dest: pmap_get_tbl_status)
    with assms g Inl show ?thesis by (simp add: pmap_modify_tbl_def)
  next
    case (Inr tbl)
    let ?sm = "s1\<lparr>mem := (mem s1)(slot tbl (drop_bit 12 va AND 0x1FF) := val)\<rparr>"
    have "s' = pmap_flush va ?sm" using assms g Inr by (simp add: pmap_modify_tbl_def)
    moreover have "cpus ?sm = cpus s \<and> curcpu ?sm = curcpu s \<and> trace ?sm = trace s"
      using o by simp
    ultimately show ?thesis by blast
  qed
qed

lemma pmap_set_cache_flushes:
  assumes "pmap_set_cache k vs va type s = Inr (0, s')"
  shows "\<exists>sm. s' = pmap_flush va sm \<and> cpus sm = cpus s \<and> curcpu sm = curcpu s
            \<and> trace sm = trace s"
proof -
  obtain r where g: "pmap_get_tbl k vs va False s = Inr (r, s)"
    using pmap_get_tbl_False_total by blast
  show ?thesis
  proof (cases r)
    case (Inl st)
    with g have "st = 1" by (auto dest: pmap_get_tbl_status)
    with assms g Inl show ?thesis by (simp add: pmap_set_cache_def)
  next
    case (Inr tbl)
    let ?a = "slot tbl (drop_bit 12 va AND 0x1FF)"
    from assms g Inr
    have "s' = pmap_flush va (s\<lparr>mem := (mem s)(?a := (mem s ?a OR PTE_PCD) AND NOT PTE_PWT)\<rparr>)
        \<or> s' = pmap_flush va (s\<lparr>mem := (mem s)(?a := (mem s ?a AND NOT PTE_PCD) OR PTE_PWT)\<rparr>)"
      by (auto simp: set_cache_mapped Let_def split: if_splits)
    then show ?thesis
    proof
      assume "s' = pmap_flush va (s\<lparr>mem := (mem s)(?a := (mem s ?a OR PTE_PCD) AND NOT PTE_PWT)\<rparr>)"
      then show ?thesis by (intro exI[of _ "s\<lparr>mem := (mem s)(?a := (mem s ?a OR PTE_PCD) AND NOT PTE_PWT)\<rparr>"]) simp
    next
      assume "s' = pmap_flush va (s\<lparr>mem := (mem s)(?a := (mem s ?a AND NOT PTE_PCD) OR PTE_PWT)\<rparr>)"
      then show ?thesis by (intro exI[of _ "s\<lparr>mem := (mem s)(?a := (mem s ?a AND NOT PTE_PCD) OR PTE_PWT)\<rparr>"]) simp
    qed
  qed
qed

lemma tlb_shootdown_isr_second_core:
  assumes "cpus t = [c0, d]" "curcpu t = 1"
  shows "cpus (tlb_shootdown_isr t) =
           [c0, d\<lparr>tlb_shootdown_info :=
                    Some ((case tlb_shootdown_info d of
                             None \<Rightarrow> (intr_info_alloc ''TLB-Shootdown'' ''LAPIC-IPI'')
                                       \<lparr>affinity := cpu_id d\<rparr>
                           | Some info \<Rightarrow> info)
                          \<lparr>count := (case tlb_shootdown_info d of
                                       None \<Rightarrow> 0 | Some info \<Rightarrow> count info) + 1\<rparr>),
                  tlb_flush_ptr := 0\<rparr>]"
    and "trace (tlb_shootdown_isr t) =
           trace t
           @ (case tlb_shootdown_info d of
                None \<Rightarrow> [IntrRegister ((intr_info_alloc ''TLB-Shootdown'' ''LAPIC-IPI'')
                                         \<lparr>affinity := cpu_id d\<rparr>)]
              | Some info \<Rightarrow> [])
           @ [TlbFlush 1 (tlb_flush_ptr d), StoreFlushPtr 1 0, LapicSendEoi 1]"
  using assms
  by (auto simp: tlb_shootdown_isr_def this_cpu_def Let_def intr_register_def tlb_flush_def
        lapic_send_eoi_def intr_info_alloc_def store_flush_ptr_def split: option.splits)

subsection \<open>Walks by the entries they read\<close>

lemma pmap_get_tbl_False_absent:
  assumes "\<not> TEST (mem s (pml4e_slot k vs va)) PTE_P
           \<or> \<not> TEST (mem s (pdpte_slot k vs va s)) PTE_P
           \<or> \<not> TEST (mem s (pde_slot k vs va s)) PTE_P"
  shows "pmap_get_tbl k vs va False s = Inr (Inl 1, s)"
  using assms
  by (auto simp: pmap_get_tbl_def pmap_extract_False Let_def pml4e_slot_def pdpte_slot_def
        pde_slot_def)

lemma pmap_get_tbl_False_present:
  assumes "TEST (mem s (pml4e_slot k vs va)) PTE_P"
          "TEST (mem s (pdpte_slot k vs va s)) PTE_P"
          "TEST (mem s (pde_slot k vs va s)) PTE_P"
          "PHYS_TO_VIRT k (mem s (pml4e_slot k vs va) AND PTE_ADDR_MASK) \<noteq> 0"
          "PHYS_TO_VIRT k (mem s (pdpte_slot k vs va s) AND PTE_ADDR_MASK) \<noteq> 0"
          "PHYS_TO_VIRT k (mem s (pde_slot k vs va s) AND PTE_ADDR_MASK) \<noteq> 0"
  shows "pmap_get_tbl k vs va False s =
           Inr (Inr (PHYS_TO_VIRT k (mem s (pde_slot k vs va s) AND PTE_ADDR_MASK)), s)"
  using assms
  by (simp add: pmap_get_tbl_def pmap_extract_False Let_def pml4e_slot_def pdpte_slot_def
        pde_slot_def)

subsection \<open>The tables a mapping leaves in place\<close>

lemma masked_aligned:
  "(e AND PTE_ADDR_MASK) AND 0xFFF = 0"
proof -
  have "PTE_ADDR_MASK AND 0xFFF = 0" by (simp add: PTE_ADDR_MASK_def)
  then show ?thesis by (simp add: and.assoc)
qed

lemma frame_aligned:
  "f AND PTE_ADDR_MASK = f \<Longrightarrow> f AND 0xFFF = 0"
  using masked_aligned[of f] by simp

lemma page_disjoint:
  assumes "p AND 0xFFF = 0" "q AND 0xFFF = 0" "p \<noteq> q"
      and "a - PHYS_TO_VIRT k p < 4096"
  shows "\<not> a - PHYS_TO_VIRT k q < 4096"
proof
  assume y: "a - PHYS_TO_VIRT k q < 4096"
  have "p + (a - PHYS_TO_VIRT k p) = q + (a - PHYS_TO_VIRT k q)"
    by (simp add: PHYS_TO_VIRT_def)
  then have "(p + (a - PHYS_TO_VIRT k p)) AND 0xFFF = (q + (a - PHYS_TO_VIRT k q)) AND 0xFFF"
    by (simp only:)
  then have e: "a - PHYS_TO_VIRT k p = a - PHYS_TO_VIRT k q"
    using assms(1,2,4) y by (simp add: low12_of_sum)
  then have "PHYS_TO_VIRT k p = PHYS_TO_VIRT k q" by simp
  then show False using assms(3) by (simp add: PHYS_TO_VIRT_def)
qed

lemma index_slot_in_page:
  "slot p (x AND 0x1FF) - p < 4096"
  by (rule slot_in_page) (rule idx_lt)

lemma new_entry_walks:
  assumes "f AND PTE_ADDR_MASK = f"
  shows "TEST (f OR (PTE_P OR PTE_RW OR PTE_US)) PTE_P"
    and "(f OR (PTE_P OR PTE_RW OR PTE_US)) AND PTE_ADDR_MASK = f"
proof -
  define c where "c = PTE_P OR PTE_RW OR PTE_US"
  have c: "c AND PTE_ADDR_MASK = 0" "c AND PTE_P = PTE_P" "PTE_P \<noteq> 0"
    by (simp_all add: c_def pte_defs)
  have "(f OR c) AND PTE_P = (f AND PTE_P) OR PTE_P"
    by (simp only: word_ao_dist c)
  also have "\<dots> = PTE_P" by (auto simp: bit_eq_iff bit_simps)
  finally have "TEST (f OR c) PTE_P"
    using c(3) by (simp add: TEST_def)
  then show "TEST (f OR (PTE_P OR PTE_RW OR PTE_US)) PTE_P" by (simp only: c_def)
  have "(f OR c) AND PTE_ADDR_MASK = f AND PTE_ADDR_MASK OR 0"
    by (simp only: word_ao_dist c)
  then have "(f OR c) AND PTE_ADDR_MASK = f" using assms by simp
  then show "(f OR (PTE_P OR PTE_RW OR PTE_US)) AND PTE_ADDR_MASK = f" by (simp only: c_def)
qed

lemma pmap_extract_True_disj:
  assumes "pmap_extract k L va T True s = Inr (T', s')"
      and "pmap_get_level_index L va = Inr idx"
  shows "(TEST (mem s (slot T idx)) PTE_P \<and> s' = s
            \<and> T' = PHYS_TO_VIRT k (mem s (slot T idx) AND PTE_ADDR_MASK))
       \<or> (\<not> TEST (mem s (slot T idx)) PTE_P
            \<and> (\<exists>f fs. frames s = f # fs \<and> frames s' = fs \<and> T' = PHYS_TO_VIRT k f
                 \<and> mem s' = (\<lambda>a. if a - PHYS_TO_VIRT k f < 4096 then 0 else mem s a)
                        (slot T idx := f OR (PTE_P OR PTE_RW OR PTE_US))))"
  using assms
  by (auto simp: pmap_extract_def Let_def memset_page_def vm_alloc_pageframe_def
           split: if_splits list.splits)

lemma pmap_extract_True_cases:
  assumes "pmap_extract k L va T True s = Inr (T', s')"
      and "pmap_get_level_index L va = Inr idx"
  obtains (present) "TEST (mem s (slot T idx)) PTE_P" "s' = s"
            "T' = PHYS_TO_VIRT k (mem s (slot T idx) AND PTE_ADDR_MASK)"
        | (alloc) f fs where "\<not> TEST (mem s (slot T idx)) PTE_P"
            "frames s = f # fs" "frames s' = fs" "T' = PHYS_TO_VIRT k f"
            "mem s' = (\<lambda>a. if a - PHYS_TO_VIRT k f < 4096 then 0 else mem s a)
                        (slot T idx := f OR (PTE_P OR PTE_RW OR PTE_US))"
  using pmap_extract_True_disj[OF assms] by blast

lemma pmap_extract_then_walk:
  assumes "pmap_extract k L va T True s = Inr (T', s')"
      and "pmap_get_level_index L va = Inr idx"
      and "list_all (\<lambda>f. f AND PTE_ADDR_MASK = f) (frames s)"
  shows "pmap_extract k L va T False s' = Inr (T', s')"
  using assms(1,2)
proof (cases rule: pmap_extract_True_cases)
  case present
  then show ?thesis using assms(2) by (simp add: pmap_extract_False)
next
  case (alloc f fs)
  have "f AND PTE_ADDR_MASK = f" using assms(3) alloc(2) by simp
  then show ?thesis using assms(2) alloc(4,5)
    by (simp add: pmap_extract_False new_entry_walks)
qed

lemma pmap_get_tbl_True_steps:
  assumes "pmap_get_tbl k vs va True s = Inr (Inr tbl, s3)"
  obtains T3 s1 T2 s2 where
    "pmap_extract k 4 va (PHYS_TO_VIRT k (top_level vs)) True s = Inr (T3, s1)" "T3 \<noteq> 0"
    "pmap_extract k 3 va T3 True s1 = Inr (T2, s2)" "T2 \<noteq> 0"
    "pmap_extract k 2 va T2 True s2 = Inr (tbl, s3)" "tbl \<noteq> 0"
proof -
  from assms obtain T3 s1 where e4:
      "pmap_extract k 4 va (PHYS_TO_VIRT k (top_level vs)) True s = Inr (T3, s1)"
    by (auto simp: pmap_get_tbl_def Let_def split: sum.splits)
  have n3: "T3 \<noteq> 0" using assms e4 by (auto simp: pmap_get_tbl_def Let_def)
  from assms e4 n3 obtain T2 s2 where e3: "pmap_extract k 3 va T3 True s1 = Inr (T2, s2)"
    by (auto simp: pmap_get_tbl_def Let_def split: sum.splits)
  have n2: "T2 \<noteq> 0" using assms e4 n3 e3 by (auto simp: pmap_get_tbl_def Let_def)
  from assms e4 n3 e3 n2 have e2: "pmap_extract k 2 va T2 True s2 = Inr (tbl, s3)" "tbl \<noteq> 0"
    by (auto simp: pmap_get_tbl_def Let_def split: sum.splits if_splits)
  from e4 n3 e3 n2 e2 show ?thesis by (rule that)
qed

lemma pmap_extract_False_transfer:
  assumes "pmap_extract k L va T False s = Inr (T', s)"
      and "pmap_get_level_index L va = Inr idx"
      and "mem s' (slot T idx) = mem s (slot T idx)"
  shows "pmap_extract k L va T False s' = Inr (T', s')"
  using assms by (auto simp: pmap_extract_False)

lemma walk_in_place:
  assumes top: "top_level vs = p0"
    and w4: "pmap_extract k 4 va (PHYS_TO_VIRT k p0) False s1 = Inr (PHYS_TO_VIRT k p3, s1)"
    and e3: "pmap_extract k 3 va (PHYS_TO_VIRT k p3) True s1 = Inr (PHYS_TO_VIRT k p2, s2)"
    and w3: "pmap_extract k 3 va (PHYS_TO_VIRT k p3) False s2 = Inr (PHYS_TO_VIRT k p2, s2)"
    and e2: "pmap_extract k 2 va (PHYS_TO_VIRT k p2) True s2 = Inr (PHYS_TO_VIRT k p1, s3)"
    and w2: "pmap_extract k 2 va (PHYS_TO_VIRT k p2) False s3 = Inr (PHYS_TO_VIRT k p1, s3)"
    and nz: "PHYS_TO_VIRT k p3 \<noteq> 0" "PHYS_TO_VIRT k p2 \<noteq> 0" "PHYS_TO_VIRT k p1 \<noteq> 0"
    and al: "p0 AND 0xFFF = 0" "p3 AND 0xFFF = 0" "p2 AND 0xFFF = 0" "p1 AND 0xFFF = 0"
    and di: "distinct [p0, p3, p2, p1]"
    and mf: "mem sf = (mem s3)(slot (PHYS_TO_VIRT k p1) (drop_bit 12 va AND 0x1FF) := val)"
  shows "pmap_get_tbl k vs va False sf = Inr (Inr (PHYS_TO_VIRT k p1), sf)"
proof -
  let ?a4 = "slot (PHYS_TO_VIRT k p0) (drop_bit 39 va AND 0x1FF)"
  let ?a3 = "slot (PHYS_TO_VIRT k p3) (drop_bit 30 va AND 0x1FF)"
  let ?a2 = "slot (PHYS_TO_VIRT k p2) (drop_bit 21 va AND 0x1FF)"
  let ?a1 = "slot (PHYS_TO_VIRT k p1) (drop_bit 12 va AND 0x1FF)"
  have in4: "?a4 - PHYS_TO_VIRT k p0 < 4096" and in3: "?a3 - PHYS_TO_VIRT k p3 < 4096"
    and in2: "?a2 - PHYS_TO_VIRT k p2 < 4096" and in1: "?a1 - PHYS_TO_VIRT k p1 < 4096"
    by (rule index_slot_in_page)+
  have ne: "p0 \<noteq> p3" "p0 \<noteq> p2" "p0 \<noteq> p1" "p3 \<noteq> p2" "p3 \<noteq> p1" "p2 \<noteq> p1"
    using di by auto
  have o43: "\<not> ?a4 - PHYS_TO_VIRT k p3 < 4096" by (rule page_disjoint[OF al(1) al(2) ne(1) in4])
  have o42: "\<not> ?a4 - PHYS_TO_VIRT k p2 < 4096" by (rule page_disjoint[OF al(1) al(3) ne(2) in4])
  have o41: "\<not> ?a4 - PHYS_TO_VIRT k p1 < 4096" by (rule page_disjoint[OF al(1) al(4) ne(3) in4])
  have o32: "\<not> ?a3 - PHYS_TO_VIRT k p2 < 4096" by (rule page_disjoint[OF al(2) al(3) ne(4) in3])
  have o31: "\<not> ?a3 - PHYS_TO_VIRT k p1 < 4096" by (rule page_disjoint[OF al(2) al(4) ne(5) in3])
  have o21: "\<not> ?a2 - PHYS_TO_VIRT k p1 < 4096" by (rule page_disjoint[OF al(3) al(4) ne(6) in2])
  have d1: "?a4 \<noteq> ?a1" "?a3 \<noteq> ?a1" "?a2 \<noteq> ?a1"
    using in1 o41 o31 o21 by auto
  have m4: "mem sf ?a4 = mem s1 ?a4"
  proof -
    have "mem s2 ?a4 = mem s1 ?a4" by (rule pmap_extract_frame[OF e3 o43 o42])
    moreover have "mem s3 ?a4 = mem s2 ?a4" by (rule pmap_extract_frame[OF e2 o42 o41])
    ultimately show ?thesis using d1(1) by (simp add: mf)
  qed
  have m3: "mem sf ?a3 = mem s2 ?a3"
  proof -
    have "mem s3 ?a3 = mem s2 ?a3" by (rule pmap_extract_frame[OF e2 o32 o31])
    then show ?thesis using d1(2) by (simp add: mf)
  qed
  have m2: "mem sf ?a2 = mem s3 ?a2"
    using d1(3) by (simp add: mf)
  have f4: "pmap_extract k 4 va (PHYS_TO_VIRT k p0) False sf = Inr (PHYS_TO_VIRT k p3, sf)"
    by (rule pmap_extract_False_transfer[OF w4 level_index_234(1) m4])
  have f3: "pmap_extract k 3 va (PHYS_TO_VIRT k p3) False sf = Inr (PHYS_TO_VIRT k p2, sf)"
    by (rule pmap_extract_False_transfer[OF w3 level_index_234(2) m3])
  have f2: "pmap_extract k 2 va (PHYS_TO_VIRT k p2) False sf = Inr (PHYS_TO_VIRT k p1, sf)"
    by (rule pmap_extract_False_transfer[OF w2 level_index_234(3) m2])
  show ?thesis
    by (simp add: pmap_get_tbl_def top f4 f3 f2 nz)
qed

lemma fresh_page_absent:
  assumes m: "mem s' = (\<lambda>a. if a - PHYS_TO_VIRT k f < 4096 then 0 else mem s a)
                         (slot (PHYS_TO_VIRT k p) (x AND 0x1FF) := e)"
      and al: "p AND 0xFFF = 0" "f AND 0xFFF = 0" and ne: "p \<noteq> f"
  shows "\<not> TEST (mem s' (slot (PHYS_TO_VIRT k f) (y AND 0x1FF))) PTE_P"
proof -
  let ?a = "slot (PHYS_TO_VIRT k f) (y AND 0x1FF)"
  let ?b = "slot (PHYS_TO_VIRT k p) (x AND 0x1FF)"
  have ia: "?a - PHYS_TO_VIRT k f < 4096" by (rule index_slot_in_page)
  have ib: "?b - PHYS_TO_VIRT k p < 4096" by (rule index_slot_in_page)
  have "\<not> ?b - PHYS_TO_VIRT k f < 4096" by (rule page_disjoint[OF al ne ib])
  then have "?a \<noteq> ?b" using ia by auto
  then have "mem s' ?a = 0" using ia by (simp add: m)
  then show ?thesis by (simp add: TEST_def)
qed

lemma walk_in_place_tables:
  assumes eq: "T3 = PHYS_TO_VIRT k p3" "T2 = PHYS_TO_VIRT k p2" "tbl = PHYS_TO_VIRT k p1"
    and e4: "pmap_extract k 4 va (PHYS_TO_VIRT k (top_level vs)) True s = Inr (T3, s1)"
    and e3: "pmap_extract k 3 va T3 True s1 = Inr (T2, s2)"
    and e2: "pmap_extract k 2 va T2 True s2 = Inr (tbl, s3)"
    and nz: "T3 \<noteq> 0" "T2 \<noteq> 0" "tbl \<noteq> 0"
    and fa: "list_all (\<lambda>f. f AND PTE_ADDR_MASK = f) (frames s)"
            "list_all (\<lambda>f. f AND PTE_ADDR_MASK = f) (frames s1)"
            "list_all (\<lambda>f. f AND PTE_ADDR_MASK = f) (frames s2)"
    and al: "top_level vs AND 0xFFF = 0" "p3 AND 0xFFF = 0" "p2 AND 0xFFF = 0" "p1 AND 0xFFF = 0"
    and di: "distinct [top_level vs, p3, p2, p1]"
    and mf: "mem sf = (mem s3)(slot tbl (drop_bit 12 va AND 0x1FF) := val)"
  shows "pmap_get_tbl k vs va False sf = Inr (Inr tbl, sf)"
proof -
  have w4: "pmap_extract k 4 va (PHYS_TO_VIRT k (top_level vs)) False s1 = Inr (T3, s1)"
    by (rule pmap_extract_then_walk[OF e4 level_index_234(1) fa(1)])
  have w3: "pmap_extract k 3 va T3 False s2 = Inr (T2, s2)"
    by (rule pmap_extract_then_walk[OF e3 level_index_234(2) fa(2)])
  have w2: "pmap_extract k 2 va T2 False s3 = Inr (tbl, s3)"
    by (rule pmap_extract_then_walk[OF e2 level_index_234(3) fa(3)])
  show ?thesis
    using walk_in_place[OF refl w4[unfolded eq] e3[unfolded eq] w3[unfolded eq] e2[unfolded eq]
        w2[unfolded eq] nz[unfolded eq] al di mf[unfolded eq]]
    by (simp only: eq)
qed

lemma alloc_walk_in_place:
  assumes fr: "fresh_frames k vs va s"
      and g: "pmap_get_tbl k vs va True s = Inr (Inr tbl, s3)"
      and mf: "mem sf = (mem s3)(slot tbl (drop_bit 12 va AND 0x1FF) := val)"
  shows "pmap_get_tbl k vs va False sf = Inr (Inr tbl, sf)"
proof -
  from g obtain T3 s1 T2 s2 where
        e4: "pmap_extract k 4 va (PHYS_TO_VIRT k (top_level vs)) True s = Inr (T3, s1)"
    and n3: "T3 \<noteq> 0"
    and e3: "pmap_extract k 3 va T3 True s1 = Inr (T2, s2)" and n2: "T2 \<noteq> 0"
    and e2: "pmap_extract k 2 va T2 True s2 = Inr (tbl, s3)" and n1: "tbl \<noteq> 0"
    by (rule pmap_get_tbl_True_steps)
  from fr have a0: "top_level vs AND 0xFFF = 0"
    and fa: "list_all (\<lambda>f. f AND PTE_ADDR_MASK = f) (frames s)"
    and dd: "distinct (path_frames k vs va s @ frames s)"
    by (simp_all add: fresh_frames_def)
  note ma = masked_aligned
  from e4 level_index_234(1) show ?thesis
  proof (cases rule: pmap_extract_True_cases)
    case present
    note p4 = present
    have fa1: "list_all (\<lambda>f. f AND PTE_ADDR_MASK = f) (frames s1)" using fa p4(2) by simp
    from e3 level_index_234(2) show ?thesis
    proof (cases rule: pmap_extract_True_cases)
      case present
      note p3 = present
      have fa2: "list_all (\<lambda>f. f AND PTE_ADDR_MASK = f) (frames s2)" using fa1 p3(2) by simp
      from e2 level_index_234(3) show ?thesis
      proof (cases rule: pmap_extract_True_cases)
        case present
        note p2 = present
        have pf: "path_frames k vs va s =
            [top_level vs, mem s (slot (PHYS_TO_VIRT k (top_level vs)) (drop_bit 39 va AND 0x1FF))
                             AND PTE_ADDR_MASK,
             mem s1 (slot T3 (drop_bit 30 va AND 0x1FF)) AND PTE_ADDR_MASK,
             mem s2 (slot T2 (drop_bit 21 va AND 0x1FF)) AND PTE_ADDR_MASK]"
          using p4 p3 p2(1)
          by (simp add: path_frames_def pml4e_slot_def pdpte_slot_def pde_slot_def)
        have di: "distinct [top_level vs,
             mem s (slot (PHYS_TO_VIRT k (top_level vs)) (drop_bit 39 va AND 0x1FF))
                             AND PTE_ADDR_MASK,
             mem s1 (slot T3 (drop_bit 30 va AND 0x1FF)) AND PTE_ADDR_MASK,
             mem s2 (slot T2 (drop_bit 21 va AND 0x1FF)) AND PTE_ADDR_MASK]"
          using dd unfolding pf by simp
        show ?thesis
          by (rule walk_in_place_tables[OF p4(3) p3(3) p2(3) e4 e3 e2 n3 n2 n1 fa fa1 fa2
                a0 ma ma ma di mf])
      next
        case (alloc f fs)
        note q2 = alloc
        have pf: "path_frames k vs va s =
            [top_level vs, mem s (slot (PHYS_TO_VIRT k (top_level vs)) (drop_bit 39 va AND 0x1FF))
                             AND PTE_ADDR_MASK,
             mem s1 (slot T3 (drop_bit 30 va AND 0x1FF)) AND PTE_ADDR_MASK]"
          using p4 p3 q2(1)
          by (simp add: path_frames_def pml4e_slot_def pdpte_slot_def pde_slot_def)
        have fs: "frames s = f # fs" using q2(2) p3(2) p4(2) by simp
        have di: "distinct [top_level vs,
             mem s (slot (PHYS_TO_VIRT k (top_level vs)) (drop_bit 39 va AND 0x1FF))
                             AND PTE_ADDR_MASK,
             mem s1 (slot T3 (drop_bit 30 va AND 0x1FF)) AND PTE_ADDR_MASK, f]"
          using dd unfolding pf fs by auto
        have af: "f AND 0xFFF = 0" using fa fs by (simp add: frame_aligned)
        show ?thesis
          by (rule walk_in_place_tables[OF p4(3) p3(3) q2(4) e4 e3 e2 n3 n2 n1 fa fa1 fa2
                a0 ma ma af di mf])
      qed
    next
      case (alloc f fs)
      note q3 = alloc
      have pf: "path_frames k vs va s =
          [top_level vs, mem s (slot (PHYS_TO_VIRT k (top_level vs)) (drop_bit 39 va AND 0x1FF))
                           AND PTE_ADDR_MASK]"
        using p4 q3(1)
        by (simp add: path_frames_def pml4e_slot_def pdpte_slot_def pde_slot_def)
      have fs: "frames s = f # fs" using q3(2) p4(2) by simp
      have af: "f AND 0xFFF = 0" and fa2: "list_all (\<lambda>f. f AND PTE_ADDR_MASK = f) (frames s2)"
        using fa fs q3(3) by (simp_all add: frame_aligned)
      have nf: "mem s (slot (PHYS_TO_VIRT k (top_level vs)) (drop_bit 39 va AND 0x1FF))
                  AND PTE_ADDR_MASK \<noteq> f"
        using dd unfolding pf fs by auto
      have ab2: "\<not> TEST (mem s2 (slot T2 (drop_bit 21 va AND 0x1FF))) PTE_P"
        unfolding q3(4)
        by (rule fresh_page_absent[OF q3(5)[unfolded p4(3)] ma af nf])
      from e2 level_index_234(3) show ?thesis
      proof (cases rule: pmap_extract_True_cases)
        case present
        then show ?thesis using ab2 by simp
      next
        case (alloc f2 fs2)
        note q2 = alloc
        have fs': "frames s = f # f2 # fs2" using fs q3(3) q2(2) by simp
        have di: "distinct [top_level vs,
             mem s (slot (PHYS_TO_VIRT k (top_level vs)) (drop_bit 39 va AND 0x1FF))
                             AND PTE_ADDR_MASK, f, f2]"
          using dd unfolding pf fs' by auto
        have af2: "f2 AND 0xFFF = 0" using fa fs' by (simp add: frame_aligned)
        show ?thesis
          by (rule walk_in_place_tables[OF p4(3) q3(4) q2(4) e4 e3 e2 n3 n2 n1 fa fa1 fa2
                a0 ma af af2 di mf])
      qed
    qed
  next
    case (alloc f1 fs1)
    note q4 = alloc
    have pf: "path_frames k vs va s = [top_level vs]"
      using q4(1) by (simp add: path_frames_def pml4e_slot_def)
    have af1: "f1 AND 0xFFF = 0" and fa1: "list_all (\<lambda>f. f AND PTE_ADDR_MASK = f) (frames s1)"
      using fa q4(2,3) by (simp_all add: frame_aligned)
    have nf1: "top_level vs \<noteq> f1" using dd unfolding pf q4(2) by auto
    have ab3: "\<not> TEST (mem s1 (slot T3 (drop_bit 30 va AND 0x1FF))) PTE_P"
      unfolding q4(4) by (rule fresh_page_absent[OF q4(5) a0 af1 nf1])
    from e3 level_index_234(2) show ?thesis
    proof (cases rule: pmap_extract_True_cases)
      case present
      then show ?thesis using ab3 by simp
    next
      case (alloc f2 fs2)
      note q3 = alloc
      have fs': "frames s = f1 # f2 # fs2" using q4(2,3) q3(2) by simp
      have af2: "f2 AND 0xFFF = 0"
        and fa2: "list_all (\<lambda>f. f AND PTE_ADDR_MASK = f) (frames s2)"
        using fa fs' q3(3) by (simp_all add: frame_aligned)
      have nf2: "f1 \<noteq> f2" using dd unfolding pf fs' by auto
      have ab2: "\<not> TEST (mem s2 (slot T2 (drop_bit 21 va AND 0x1FF))) PTE_P"
        unfolding q3(4) by (rule fresh_page_absent[OF q3(5)[unfolded q4(4)] af1 af2 nf2])
      from e2 level_index_234(3) show ?thesis
      proof (cases rule: pmap_extract_True_cases)
        case present
        then show ?thesis using ab2 by simp
      next
        case (alloc f3 fs3)
        note q2 = alloc
        have fs'': "frames s = f1 # f2 # f3 # fs3" using fs' q3(3) q2(2) by simp
        have di: "distinct [top_level vs, f1, f2, f3]"
          using dd unfolding pf fs'' by auto
        have af3: "f3 AND 0xFFF = 0" using fa fs'' by (simp add: frame_aligned)
        show ?thesis
          by (rule walk_in_place_tables[OF q4(4) q3(4) q2(4) e4 e3 e2 n3 n2 n1 fa fa1 fa2
                a0 af1 af2 af3 di mf])
      qed
    qed
  qed
qed

lemma pmap_modify_tbl_ok:
  assumes "pmap_modify_tbl k vs va val s = Inr (0, s1)"
  obtains tbl s3 where "pmap_get_tbl k vs va True s = Inr (Inr tbl, s3)"
    "s1 = pmap_flush va (s3\<lparr>mem := (mem s3)(slot tbl (drop_bit 12 va AND 0x1FF) := val)\<rparr>)"
proof -
  from assms obtain r s3 where g: "pmap_get_tbl k vs va True s = Inr (r, s3)"
    by (auto simp: pmap_modify_tbl_def split: sum.splits)
  show ?thesis
  proof (cases r)
    case (Inl st)
    with g have "st = 1" by (auto dest: pmap_get_tbl_status)
    with assms g Inl show ?thesis by (simp add: pmap_modify_tbl_def)
  next
    case (Inr tbl)
    with assms g show ?thesis by (intro that[of tbl s3]) (simp_all add: pmap_modify_tbl_def)
  qed
qed

lemma pmap_lookup_cleared:
  assumes "pmap_get_tbl k vs va False s = Inr (Inr tbl, s)"
      and "mem s (slot tbl (drop_bit 12 va AND 0x1FF)) = 0"
  shows "pmap_lookup k vs va s = Inr (Inl 1)"
  using assms by (simp add: pmap_lookup_def pmap_extract_False TEST_def)

subsection \<open>Running the scenarios\<close>

lemmas run_defs = pmap_map_def pmap_unmap_def pmap_modify_tbl_def pmap_get_tbl_def pmap_extract_def
  pmap_set_cache_def leaf_entry_def
  vm_alloc_pageframe_def memset_page_def PHYS_TO_VIRT_def slot_def pmap_flush_def tlb_shootdown_def
  tlb_flush_def lapic_send_ipi_def cpu_count_def this_cpu_def pmap_prot_to_pte_def
  hdr0_def vas0_def boot_def walked_def mapped_def cpu0_def cpu1_def pte_defs Let_def
  returned_def state_after_def

lemmas slot_defs = pml4e_slot_def pdpte_slot_def pde_slot_def pte_slot_def

section \<open>Index derivation\<close>

text \<open>
  C4. For a level \<open>L\<close> from 1 to 4 the index is the nine bits of the virtual address
  from bit \<open>12 + 9 * (L - 1)\<close> up: bit \<open>n\<close> of the index is bit \<open>12 + 9 * (L - 1) + n\<close> of
  the address for \<open>n < 9\<close>, and no higher bit of the index is set. At level 1 the address
  \<open>0x1000\<close> has index 1 and the address 0 has index 0; at level 4 the higher-half
  address \<open>0xFFFF800000000000\<close> has index 256.
\<close>

theorem pmap_get_level_index_bits:
  "(1 \<le> L \<and> L \<le> 4 \<longrightarrow>
      (\<exists>idx. pmap_get_level_index L va = Inr idx
         \<and> idx = take_bit 9 (drop_bit (12 + 9 * (unat L - 1)) va)
         \<and> (\<forall>n. bit idx n \<longleftrightarrow> n < 9 \<and> bit va (12 + 9 * (unat L - 1) + n))))
   \<and> pmap_get_level_index 1 0x1000 = Inr 1
   \<and> pmap_get_level_index 1 0 = Inr 0
   \<and> pmap_get_level_index 4 0xFFFF800000000000 = Inr 256"
proof -
  have "\<exists>idx. pmap_get_level_index L va = Inr idx
         \<and> idx = take_bit 9 (drop_bit (12 + 9 * (unat L - 1)) va)
         \<and> (\<forall>n. bit idx n \<longleftrightarrow> n < 9 \<and> bit va (12 + 9 * (unat L - 1) + n))"
    if "1 \<le> L" "L \<le> 4"
  proof -
    from level_cases[OF that] show ?thesis
      by (elim disjE) (simp_all add: idx_mask bit_simps)
  qed
  then show ?thesis by simp
qed

theorem pmap_get_level_index_bits_witness:
  "(1::8 word) \<le> 3 \<and> (3::8 word) \<le> 4 \<and> pmap_get_level_index 3 0x40201000 = Inr 1"
  using pmap_get_level_index_bits [of 3 "0x40201000"] by simp

text \<open>
  C9. For a level from 1 to 4 the \<open>switch\<close> never takes its default arm, the index
  is below 512, so the entry \<open>pmap[idx]\<close> lies in the 4096 bytes of its table, and a step
  of the walker leaves every word outside that table and outside the table it returns
  as it was.
\<close>

theorem walker_index_in_bounds:
  "1 \<le> level \<and> level \<le> 4 \<longrightarrow>
     level_switch level \<noteq> CaseDefault
   \<and> (\<exists>idx. pmap_get_level_index level va = Inr idx \<and> idx < 512
         \<and> slot pmap idx - pmap < 4096)
   \<and> (\<forall>alloc s p s' a. pmap_extract k level va pmap alloc s = Inr (p, s')
         \<longrightarrow> \<not> a - pmap < 4096 \<longrightarrow> \<not> a - p < 4096 \<longrightarrow> mem s' a = mem s a)"
proof (intro impI, elim conjE)
  assume l: "1 \<le> level" "level \<le> 4"
  have a: "level_switch level \<noteq> CaseDefault"
    using level_cases[OF l] by (auto simp: level_switch_def)
  obtain idx where i: "pmap_get_level_index level va = Inr idx"
    using level_cases[OF l] by auto
  have b: "idx < 512" using i by (rule level_index_lt)
  have c: "slot pmap idx - pmap < 4096" using b by (rule slot_in_page)
  show "level_switch level \<noteq> CaseDefault
   \<and> (\<exists>idx. pmap_get_level_index level va = Inr idx \<and> idx < 512
         \<and> slot pmap idx - pmap < 4096)
   \<and> (\<forall>alloc s p s' a. pmap_extract k level va pmap alloc s = Inr (p, s')
         \<longrightarrow> \<not> a - pmap < 4096 \<longrightarrow> \<not> a - p < 4096 \<longrightarrow> mem s' a = mem s a)"
    using a i b c pmap_extract_frame by blast
qed

theorem walker_index_in_bounds_witness:
  "(1::8 word) \<le> 4 \<and> (4::8 word) \<le> 4 \<and> level_switch 4 \<noteq> CaseDefault
   \<and> pmap_get_level_index 4 0xFFFF800000000000 = Inr 256
   \<and> (\<exists>s'. pmap_extract hdr0 4 0xFFFF800000000000 0xFFFF800000001000 True boot
              = Inr (0xFFFF800000002000, s')
          \<and> mem s' 0xFFFF800000005000 = mem boot 0xFFFF800000005000)"
proof -
  obtain s' where e: "pmap_extract hdr0 4 0xFFFF800000000000 0xFFFF800000001000 True boot
              = Inr (0xFFFF800000002000, s')"
    by (simp add: run_defs)
  have o: "\<not> (0xFFFF800000005000::u64) - 0xFFFF800000001000 < 4096"
          "\<not> (0xFFFF800000005000::u64) - 0xFFFF800000002000 < 4096" by simp_all
  from walker_index_in_bounds [of 4 "0xFFFF800000000000" "0xFFFF800000001000" hdr0] e o
  show ?thesis by auto
qed

section \<open>Reading and switching the address space\<close>

text \<open>
  C10. Switching to the address space just read from the control register loads the
  value that was read: the flags and the root address of the descriptor are the parts of
  the register outside and inside \<open>PTE_ADDR_MASK\<close>, they share no bit, and their
  disjunction is the register again.
\<close>

theorem pmap_switch_read_identity:
  "pmap_switch_vas (pmap_read_vas s) s = s
   \<and> cr3_flags (pmap_read_vas s) = cr3 s AND NOT PTE_ADDR_MASK
   \<and> top_level (pmap_read_vas s) = cr3 s AND PTE_ADDR_MASK
   \<and> cr3_flags (pmap_read_vas s) AND top_level (pmap_read_vas s) = 0
   \<and> cr3 (pmap_switch_vas (pmap_read_vas s) s') = cr3 s"
  by (simp add: pmap_switch_vas_def pmap_read_vas_def Let_def and_not_or_and)
     (auto simp: bit_eq_iff bit_simps)

section \<open>Cache policy\<close>

text \<open>
  C2, as the code has it. When the entry that the walk for \<open>va\<close> reads at level 4, at
  level 3 or at level 2 is not present, \<open>pmap_set_cache\<close> returns status 1 and leaves
  the whole state as it was. When the three entries are present (and none of the tables
  they name is at address 0), the walk reaches the leaf table whatever the leaf entry
  holds, and the uncacheable policy returns 0. Whatever the address and the policy,
  \<open>pmap_set_cache\<close> returns and takes no frame from the allocator.
\<close>

theorem set_cache_without_leaf_table:
  "(\<not> TEST (mem s (pml4e_slot k vs va)) PTE_P
      \<or> \<not> TEST (mem s (pdpte_slot k vs va s)) PTE_P
      \<or> \<not> TEST (mem s (pde_slot k vs va s)) PTE_P
    \<longrightarrow> pmap_set_cache k vs va type s = Inr (1, s))
   \<and> (TEST (mem s (pml4e_slot k vs va)) PTE_P
      \<and> TEST (mem s (pdpte_slot k vs va s)) PTE_P
      \<and> TEST (mem s (pde_slot k vs va s)) PTE_P
      \<and> PHYS_TO_VIRT k (mem s (pml4e_slot k vs va) AND PTE_ADDR_MASK) \<noteq> 0
      \<and> PHYS_TO_VIRT k (mem s (pdpte_slot k vs va s) AND PTE_ADDR_MASK) \<noteq> 0
      \<and> PHYS_TO_VIRT k (mem s (pde_slot k vs va s) AND PTE_ADDR_MASK) \<noteq> 0
    \<longrightarrow> leaf_entry k vs va s = Some (mem s (pte_slot k vs va s))
      \<and> returned (pmap_set_cache k vs va (VM_CACHE_UC k) s) = Some 0)
   \<and> (\<exists>st s'. pmap_set_cache k vs va type s = Inr (st, s') \<and> frames s' = frames s)"
proof (intro conjI impI)
  assume "\<not> TEST (mem s (pml4e_slot k vs va)) PTE_P
      \<or> \<not> TEST (mem s (pdpte_slot k vs va s)) PTE_P
      \<or> \<not> TEST (mem s (pde_slot k vs va s)) PTE_P"
  then have "pmap_get_tbl k vs va False s = Inr (Inl 1, s)"
    by (rule pmap_get_tbl_False_absent)
  then show "pmap_set_cache k vs va type s = Inr (1, s)"
    by (simp add: pmap_set_cache_def)
next
  assume p: "TEST (mem s (pml4e_slot k vs va)) PTE_P
      \<and> TEST (mem s (pdpte_slot k vs va s)) PTE_P
      \<and> TEST (mem s (pde_slot k vs va s)) PTE_P
      \<and> PHYS_TO_VIRT k (mem s (pml4e_slot k vs va) AND PTE_ADDR_MASK) \<noteq> 0
      \<and> PHYS_TO_VIRT k (mem s (pdpte_slot k vs va s) AND PTE_ADDR_MASK) \<noteq> 0
      \<and> PHYS_TO_VIRT k (mem s (pde_slot k vs va s) AND PTE_ADDR_MASK) \<noteq> 0"
  then have t: "pmap_get_tbl k vs va False s =
           Inr (Inr (PHYS_TO_VIRT k (mem s (pde_slot k vs va s) AND PTE_ADDR_MASK)), s)"
    by (intro pmap_get_tbl_False_present) simp_all
  show "leaf_entry k vs va s = Some (mem s (pte_slot k vs va s))"
    using t by (simp add: leaf_entry_def pte_slot_def)
  show "returned (pmap_set_cache k vs va (VM_CACHE_UC k) s) = Some 0"
    using t by (simp add: set_cache_mapped Let_def returned_def)
next
  obtain r where r: "pmap_get_tbl k vs va False s = Inr (r, s)"
    using pmap_get_tbl_False_total by blast
  show "\<exists>st s'. pmap_set_cache k vs va type s = Inr (st, s') \<and> frames s' = frames s"
  proof (cases r)
    case (Inl st)
    then show ?thesis using r by (simp add: pmap_set_cache_def)
  next
    case (Inr tbl)
    then show ?thesis using r by (simp add: set_cache_mapped Let_def)
  qed
qed

theorem set_cache_without_leaf_table_witness:
  "\<not> TEST (mem boot (pml4e_slot hdr0 vas0 0x400000)) PTE_P
   \<and> pmap_set_cache hdr0 vas0 0x400000 0 boot = Inr (1, boot)
   \<and> TEST (mem level3_absent (pml4e_slot hdr0 vas0 0x400000)) PTE_P
   \<and> \<not> TEST (mem level3_absent (pdpte_slot hdr0 vas0 0x400000 level3_absent)) PTE_P
   \<and> pmap_set_cache hdr0 vas0 0x400000 0 level3_absent = Inr (1, level3_absent)
   \<and> TEST (mem level2_absent (pml4e_slot hdr0 vas0 0x400000)) PTE_P
   \<and> TEST (mem level2_absent (pdpte_slot hdr0 vas0 0x400000 level2_absent)) PTE_P
   \<and> \<not> TEST (mem level2_absent (pde_slot hdr0 vas0 0x400000 level2_absent)) PTE_P
   \<and> pmap_set_cache hdr0 vas0 0x400000 0 level2_absent = Inr (1, level2_absent)
   \<and> leaf_entry hdr0 vas0 0x400000 walked = Some (mem walked (pte_slot hdr0 vas0 0x400000 walked))
   \<and> returned (pmap_set_cache hdr0 vas0 0x400000 (VM_CACHE_UC hdr0) walked) = Some 0"
proof -
  have h4: "\<not> TEST (mem boot (pml4e_slot hdr0 vas0 0x400000)) PTE_P"
    by (simp add: run_defs slot_defs)
  have h3: "TEST (mem level3_absent (pml4e_slot hdr0 vas0 0x400000)) PTE_P"
    "\<not> TEST (mem level3_absent (pdpte_slot hdr0 vas0 0x400000 level3_absent)) PTE_P"
    by (simp_all add: run_defs slot_defs level3_absent_def)
  have h2: "TEST (mem level2_absent (pml4e_slot hdr0 vas0 0x400000)) PTE_P"
    "TEST (mem level2_absent (pdpte_slot hdr0 vas0 0x400000 level2_absent)) PTE_P"
    "\<not> TEST (mem level2_absent (pde_slot hdr0 vas0 0x400000 level2_absent)) PTE_P"
    by (simp_all add: run_defs slot_defs level2_absent_def)
  have hw: "TEST (mem walked (pml4e_slot hdr0 vas0 0x400000)) PTE_P
      \<and> TEST (mem walked (pdpte_slot hdr0 vas0 0x400000 walked)) PTE_P
      \<and> TEST (mem walked (pde_slot hdr0 vas0 0x400000 walked)) PTE_P
      \<and> PHYS_TO_VIRT hdr0 (mem walked (pml4e_slot hdr0 vas0 0x400000) AND PTE_ADDR_MASK) \<noteq> 0
      \<and> PHYS_TO_VIRT hdr0 (mem walked (pdpte_slot hdr0 vas0 0x400000 walked) AND PTE_ADDR_MASK) \<noteq> 0
      \<and> PHYS_TO_VIRT hdr0 (mem walked (pde_slot hdr0 vas0 0x400000 walked) AND PTE_ADDR_MASK) \<noteq> 0"
    by (simp add: run_defs slot_defs)
  from set_cache_without_leaf_table [of boot hdr0 vas0 "0x400000" 0] h4
  have a: "pmap_set_cache hdr0 vas0 0x400000 0 boot = Inr (1, boot)" by blast
  from set_cache_without_leaf_table [of level3_absent hdr0 vas0 "0x400000" 0] h3
  have b: "pmap_set_cache hdr0 vas0 0x400000 0 level3_absent = Inr (1, level3_absent)" by blast
  from set_cache_without_leaf_table [of level2_absent hdr0 vas0 "0x400000" 0] h2
  have c: "pmap_set_cache hdr0 vas0 0x400000 0 level2_absent = Inr (1, level2_absent)" by blast
  from set_cache_without_leaf_table [of walked hdr0 vas0 "0x400000" 0] hw
  have d: "leaf_entry hdr0 vas0 0x400000 walked = Some (mem walked (pte_slot hdr0 vas0 0x400000 walked))
   \<and> returned (pmap_set_cache hdr0 vas0 0x400000 (VM_CACHE_UC hdr0) walked) = Some 0" by blast
  from h4 h3 h2 a b c d show ?thesis by blast
qed

text \<open>
  C2, as stated, fails where the leaf table exists and the entry of \<open>va\<close> in it is not
  present: on the machine \<open>walked\<close> the entry of \<open>0x400000\<close> is 0, and
  \<open>pmap_set_cache\<close> with the uncacheable policy returns 0 and turns the entry into
  \<open>0x10\<close>.
\<close>

theorem set_cache_absent_leaf_counterexample:
  "leaf_entry hdr0 vas0 0x400000 walked = Some 0
   \<and> \<not> TEST 0 PTE_P
   \<and> returned (pmap_set_cache hdr0 vas0 0x400000 (VM_CACHE_UC hdr0) walked) = Some 0
   \<and> Option.bind (state_after (pmap_set_cache hdr0 vas0 0x400000 (VM_CACHE_UC hdr0) walked))
        (leaf_entry hdr0 vas0 0x400000) = Some 0x10"
  by (simp add: run_defs returned_def state_after_def)

text \<open>
  C5. Where the walk reaches a leaf table for \<open>va\<close> and the two cache types are
  different values: the uncacheable policy returns 0 and leaves the entry with
  cache-disable set and write-through clear; the write-through policy returns 0 and
  leaves it with cache-disable clear and write-through set; any other policy returns 1
  and leaves the state, hence the entry, as it was.
\<close>

theorem set_cache_policy_bits:
  "leaf_entry k vs va s = Some e \<and> VM_CACHE_UC k \<noteq> VM_CACHE_WT k \<longrightarrow>
     (\<exists>s1. pmap_set_cache k vs va (VM_CACHE_UC k) s = Inr (0, s1)
        \<and> leaf_entry k vs va s1 = Some ((e OR PTE_PCD) AND NOT PTE_PWT)
        \<and> TEST ((e OR PTE_PCD) AND NOT PTE_PWT) PTE_PCD
        \<and> \<not> TEST ((e OR PTE_PCD) AND NOT PTE_PWT) PTE_PWT)
   \<and> (\<exists>s2. pmap_set_cache k vs va (VM_CACHE_WT k) s = Inr (0, s2)
        \<and> leaf_entry k vs va s2 = Some ((e AND NOT PTE_PCD) OR PTE_PWT)
        \<and> \<not> TEST ((e AND NOT PTE_PCD) OR PTE_PWT) PTE_PCD
        \<and> TEST ((e AND NOT PTE_PCD) OR PTE_PWT) PTE_PWT)
   \<and> (type \<noteq> VM_CACHE_UC k \<and> type \<noteq> VM_CACHE_WT k \<longrightarrow>
        pmap_set_cache k vs va type s = Inr (1, s) \<and> leaf_entry k vs va s = Some e)"
proof (intro impI, elim conjE)
  assume le: "leaf_entry k vs va s = Some e" and ne: "VM_CACHE_UC k \<noteq> VM_CACHE_WT k"
  from le obtain tbl where t: "pmap_get_tbl k vs va False s = Inr (Inr tbl, s)"
    and e: "e = mem s (slot tbl (drop_bit 12 va AND 0x1FF))"
    by (auto simp: leaf_entry_Some)
  let ?a = "slot tbl (drop_bit 12 va AND 0x1FF)"
  let ?uc = "(e OR PTE_PCD) AND NOT PTE_PWT"
  let ?wt = "(e AND NOT PTE_PCD) OR PTE_PWT"
  let ?s1 = "pmap_flush va (s\<lparr>mem := (mem s)(?a := ?uc)\<rparr>)"
  let ?s2 = "pmap_flush va (s\<lparr>mem := (mem s)(?a := ?wt)\<rparr>)"
  have w1: "pmap_get_tbl k vs va False ?s1 = Inr (Inr tbl, ?s1)"
    using t by (subst walk_after_flag_update)
               (simp_all add: e flag_update_keeps cache_bits_off_walk)
  have w2: "pmap_get_tbl k vs va False ?s2 = Inr (Inr tbl, ?s2)"
    using t by (subst walk_after_flag_update)
               (simp_all add: e flag_update_keeps cache_bits_off_walk)
  have u: "pmap_set_cache k vs va (VM_CACHE_UC k) s = Inr (0, ?s1)"
    using t by (simp add: set_cache_mapped Let_def e)
  have w: "pmap_set_cache k vs va (VM_CACHE_WT k) s = Inr (0, ?s2)"
    using t ne by (simp add: set_cache_mapped Let_def e)
  have l1: "leaf_entry k vs va ?s1 = Some ?uc"
    unfolding leaf_entry_Some using w1 by auto
  have l2: "leaf_entry k vs va ?s2 = Some ?wt"
    unfolding leaf_entry_Some using w2 by auto
  have o: "pmap_set_cache k vs va type s = Inr (1, s)"
    if "type \<noteq> VM_CACHE_UC k" "type \<noteq> VM_CACHE_WT k"
    using t that by (simp add: set_cache_mapped Let_def)
  show "(\<exists>s1. pmap_set_cache k vs va (VM_CACHE_UC k) s = Inr (0, s1)
        \<and> leaf_entry k vs va s1 = Some ((e OR PTE_PCD) AND NOT PTE_PWT)
        \<and> TEST ((e OR PTE_PCD) AND NOT PTE_PWT) PTE_PCD
        \<and> \<not> TEST ((e OR PTE_PCD) AND NOT PTE_PWT) PTE_PWT)
   \<and> (\<exists>s2. pmap_set_cache k vs va (VM_CACHE_WT k) s = Inr (0, s2)
        \<and> leaf_entry k vs va s2 = Some ((e AND NOT PTE_PCD) OR PTE_PWT)
        \<and> \<not> TEST ((e AND NOT PTE_PCD) OR PTE_PWT) PTE_PCD
        \<and> TEST ((e AND NOT PTE_PCD) OR PTE_PWT) PTE_PWT)
   \<and> (type \<noteq> VM_CACHE_UC k \<and> type \<noteq> VM_CACHE_WT k \<longrightarrow>
        pmap_set_cache k vs va type s = Inr (1, s) \<and> leaf_entry k vs va s = Some e)"
    using u w l1 l2 o le cache_bits by blast
qed

theorem set_cache_policy_bits_witness:
  "leaf_entry hdr0 vas0 0x400000 mapped = Some 0x100003
   \<and> VM_CACHE_UC hdr0 \<noteq> VM_CACHE_WT hdr0
   \<and> Option.bind (state_after (pmap_set_cache hdr0 vas0 0x400000 (VM_CACHE_UC hdr0) mapped))
        (leaf_entry hdr0 vas0 0x400000) = Some 0x100013
   \<and> pmap_set_cache hdr0 vas0 0x400000 7 mapped = Inr (1, mapped)"
proof -
  have h: "leaf_entry hdr0 vas0 0x400000 mapped = Some 0x100003"
    by (simp add: run_defs mapped_def)
  have d: "VM_CACHE_UC hdr0 \<noteq> VM_CACHE_WT hdr0" "(7::int) \<noteq> VM_CACHE_UC hdr0"
    "(7::int) \<noteq> VM_CACHE_WT hdr0" "(0x100003 OR PTE_PCD) AND NOT PTE_PWT = 0x100013"
    by (simp_all add: hdr0_def pte_defs)
  from set_cache_policy_bits [of hdr0 vas0 "0x400000" mapped "0x100003" 7] h d
  show ?thesis by (auto simp: state_after_def)
qed

text \<open>
  C8. Where the walk reaches a leaf table for \<open>va\<close>, applying a supported policy a
  second time returns 0 again and changes no word of memory: the leaf entry after two
  applications is the leaf entry after one.
\<close>

theorem set_cache_idempotent:
  "leaf_entry k vs va s = Some e \<and> (type = VM_CACHE_UC k \<or> type = VM_CACHE_WT k) \<longrightarrow>
     (\<exists>s1 s2. pmap_set_cache k vs va type s = Inr (0, s1)
        \<and> pmap_set_cache k vs va type s1 = Inr (0, s2)
        \<and> leaf_entry k vs va s2 = leaf_entry k vs va s1
        \<and> mem s2 = mem s1)"
proof (intro impI, elim conjE)
  assume le: "leaf_entry k vs va s = Some e"
    and ty: "type = VM_CACHE_UC k \<or> type = VM_CACHE_WT k"
  from le obtain tbl where t: "pmap_get_tbl k vs va False s = Inr (Inr tbl, s)"
    by (auto simp: leaf_entry_Some)
  let ?a = "slot tbl (drop_bit 12 va AND 0x1FF)"
  show "\<exists>s1 s2. pmap_set_cache k vs va type s = Inr (0, s1)
        \<and> pmap_set_cache k vs va type s1 = Inr (0, s2)
        \<and> leaf_entry k vs va s2 = leaf_entry k vs va s1
        \<and> mem s2 = mem s1"
  proof (cases "type = VM_CACHE_UC k")
    case True
    from set_cache_uc_step[OF t] obtain s1 where
      s1: "pmap_set_cache k vs va (VM_CACHE_UC k) s = Inr (0, s1)"
      and t1: "pmap_get_tbl k vs va False s1 = Inr (Inr tbl, s1)"
      and m1: "mem s1 = (mem s)(?a := (mem s ?a OR PTE_PCD) AND NOT PTE_PWT)"
      by blast
    from set_cache_uc_step[OF t1] obtain s2 where
      s2: "pmap_set_cache k vs va (VM_CACHE_UC k) s1 = Inr (0, s2)"
      and t2: "pmap_get_tbl k vs va False s2 = Inr (Inr tbl, s2)"
      and m2: "mem s2 = (mem s1)(?a := (mem s1 ?a OR PTE_PCD) AND NOT PTE_PWT)"
      by blast
    have mm: "mem s2 = mem s1" using m1 m2 by (simp add: flag_update_idem)
    have "leaf_entry k vs va s2 = leaf_entry k vs va s1"
      using t1 t2 mm by (simp add: leaf_entry_def)
    then show ?thesis using True s1 s2 mm by blast
  next
    case False
    then have ty': "type = VM_CACHE_WT k" "VM_CACHE_WT k \<noteq> VM_CACHE_UC k" using ty by auto
    from set_cache_wt_step[OF t ty'(2)] obtain s1 where
      s1: "pmap_set_cache k vs va (VM_CACHE_WT k) s = Inr (0, s1)"
      and t1: "pmap_get_tbl k vs va False s1 = Inr (Inr tbl, s1)"
      and m1: "mem s1 = (mem s)(?a := (mem s ?a AND NOT PTE_PCD) OR PTE_PWT)"
      by blast
    from set_cache_wt_step[OF t1 ty'(2)] obtain s2 where
      s2: "pmap_set_cache k vs va (VM_CACHE_WT k) s1 = Inr (0, s2)"
      and t2: "pmap_get_tbl k vs va False s2 = Inr (Inr tbl, s2)"
      and m2: "mem s2 = (mem s1)(?a := (mem s1 ?a AND NOT PTE_PCD) OR PTE_PWT)"
      by blast
    have mm: "mem s2 = mem s1" using m1 m2 by (simp add: flag_update_idem)
    have "leaf_entry k vs va s2 = leaf_entry k vs va s1"
      using t1 t2 mm by (simp add: leaf_entry_def)
    then show ?thesis using ty' s1 s2 mm by blast
  qed
qed

theorem set_cache_idempotent_witness:
  "leaf_entry hdr0 vas0 0x400000 mapped = Some 0x100003
   \<and> Option.bind (Option.bind
        (state_after (pmap_set_cache hdr0 vas0 0x400000 (VM_CACHE_WT hdr0) mapped))
        (state_after \<circ> pmap_set_cache hdr0 vas0 0x400000 (VM_CACHE_WT hdr0)))
        (leaf_entry hdr0 vas0 0x400000)
     = Option.bind
        (state_after (pmap_set_cache hdr0 vas0 0x400000 (VM_CACHE_WT hdr0) mapped))
        (leaf_entry hdr0 vas0 0x400000)"
proof -
  have h: "leaf_entry hdr0 vas0 0x400000 mapped = Some 0x100003"
    by (simp add: run_defs mapped_def)
  from set_cache_idempotent [of hdr0 vas0 "0x400000" mapped "0x100003" "VM_CACHE_WT hdr0"] h
  show ?thesis by (auto simp: state_after_def)
qed

section \<open>Mapping and unmapping\<close>

text \<open>
  C1, evaluated on the scenario. \<open>pmap_prot_to_pte\<close> gives a writable mapping the
  no-execute bit, but after \<open>pmap_map\<close> of \<open>0x400000\<close> to \<open>0x100000\<close> with
  \<open>{writable}\<close> the leaf entry is \<open>0x100003\<close>: present, writable, not user, and
  with the no-execute bit clear, because the flags passed through 32 bits. With
  \<open>{executable}\<close> the entry is \<open>0x100001\<close>, and after \<open>pmap_unmap\<close> it is 0.
\<close>

theorem pmap_map_drops_no_execute:
  "TEST (pmap_prot_to_pte {PROT_WRITE}) PTE_NX
   \<and> returned (pmap_map hdr0 vas0 0x400000 0x100000 {PROT_WRITE} boot) = Some 0
   \<and> Option.bind (state_after (pmap_map hdr0 vas0 0x400000 0x100000 {PROT_WRITE} boot))
        (leaf_entry hdr0 vas0 0x400000) = Some 0x100003
   \<and> \<not> TEST 0x100003 PTE_NX
   \<and> TEST 0x100003 PTE_P \<and> TEST 0x100003 PTE_RW \<and> \<not> TEST 0x100003 PTE_US
   \<and> Option.bind (state_after (pmap_map hdr0 vas0 0x400000 0x100000 {PROT_EXEC} boot))
        (leaf_entry hdr0 vas0 0x400000) = Some 0x100001
   \<and> \<not> TEST 0x100001 PTE_NX
   \<and> Option.bind
        (Option.bind (state_after (pmap_map hdr0 vas0 0x400000 0x100000 {PROT_WRITE} boot))
           (state_after \<circ> pmap_unmap hdr0 vas0 0x400000))
        (leaf_entry hdr0 vas0 0x400000) = Some 0"
  by (simp add: run_defs)

text \<open>
  C3. From a state that meets the allocator's contract for the path of \<open>va\<close>, when
  \<open>pmap_map\<close> has returned 0 the leaf entry of \<open>va\<close> holds the value it wrote, and
  \<open>pmap_unmap\<close> then returns 0, takes no frame and leaves the leaf entry equal to 0:
  the non-allocating lookup of \<open>va\<close> reports status 1, mapping-not-found.
\<close>

theorem map_unmap_lookup_not_found:
  "fresh_frames k vs va s \<and> pmap_map k vs va pa prot s = Inr (0, s1) \<longrightarrow>
     leaf_entry k vs va s1 = Some (pa OR ucast (ucast (pmap_prot_to_pte prot) :: 32 word))
   \<and> (\<exists>s2. pmap_unmap k vs va s1 = Inr (0, s2)
         \<and> pmap_lookup k vs va s2 = Inr (Inl 1)
         \<and> leaf_entry k vs va s2 = Some 0
         \<and> frames s2 = frames s1)"
proof (intro impI, elim conjE)
  assume fr: "fresh_frames k vs va s"
    and m: "pmap_map k vs va pa prot s = Inr (0, s1)"
  let ?val = "pa OR ucast (ucast (pmap_prot_to_pte prot) :: 32 word)"
  let ?i1 = "drop_bit 12 va AND 0x1FF"
  from m have "pmap_modify_tbl k vs va ?val s = Inr (0, s1)"
    by (simp add: pmap_map_def Let_def)
  then obtain tbl s3 where g: "pmap_get_tbl k vs va True s = Inr (Inr tbl, s3)"
    and s1: "s1 = pmap_flush va (s3\<lparr>mem := (mem s3)(slot tbl ?i1 := ?val)\<rparr>)"
    by (rule pmap_modify_tbl_ok)
  have m1: "mem s1 = (mem s3)(slot tbl ?i1 := ?val)" by (simp add: s1)
  have w1: "pmap_get_tbl k vs va False s1 = Inr (Inr tbl, s1)"
    by (rule alloc_walk_in_place[OF fr g m1])
  have l1: "leaf_entry k vs va s1 = Some ?val"
    using w1 m1 by (simp add: leaf_entry_def)
  let ?s2 = "pmap_flush va (s1\<lparr>mem := (mem s1)(slot tbl ?i1 := 0)\<rparr>)"
  have u: "pmap_unmap k vs va s1 = Inr (0, ?s2)" by (rule pmap_unmap_walked[OF w1])
  have m2: "mem ?s2 = (mem s3)(slot tbl ?i1 := 0)" by (simp add: m1)
  have w2: "pmap_get_tbl k vs va False ?s2 = Inr (Inr tbl, ?s2)"
    by (rule alloc_walk_in_place[OF fr g m2])
  have z: "mem ?s2 (slot tbl ?i1) = 0" by simp
  have l2: "leaf_entry k vs va ?s2 = Some 0"
    using w2 z by (simp add: leaf_entry_def)
  have lk: "pmap_lookup k vs va ?s2 = Inr (Inl 1)"
    by (rule pmap_lookup_cleared[OF w2 z])
  have f2: "frames ?s2 = frames s1" by simp
  show "leaf_entry k vs va s1 = Some ?val
   \<and> (\<exists>s2. pmap_unmap k vs va s1 = Inr (0, s2)
         \<and> pmap_lookup k vs va s2 = Inr (Inl 1)
         \<and> leaf_entry k vs va s2 = Some 0
         \<and> frames s2 = frames s1)"
    using l1 u lk l2 f2 by blast
qed

theorem map_unmap_lookup_not_found_witness:
  "fresh_frames hdr0 vas0 0x400000 boot
   \<and> fresh_frames hdr0 vas0 0x400000 walked
   \<and> (\<exists>s1 s2. pmap_map hdr0 vas0 0x400000 0x100000 {PROT_WRITE} boot = Inr (0, s1)
         \<and> leaf_entry hdr0 vas0 0x400000 s1 = Some 0x100003
         \<and> pmap_unmap hdr0 vas0 0x400000 s1 = Inr (0, s2)
         \<and> pmap_lookup hdr0 vas0 0x400000 s2 = Inr (Inl 1))
   \<and> (\<exists>s1 s2. pmap_map hdr0 vas0 0x400000 0x100000 {PROT_WRITE} walked = Inr (0, s1)
         \<and> leaf_entry hdr0 vas0 0x400000 s1 = Some 0x100003
         \<and> pmap_unmap hdr0 vas0 0x400000 s1 = Inr (0, s2)
         \<and> pmap_lookup hdr0 vas0 0x400000 s2 = Inr (Inl 1))"
proof -
  have fb: "fresh_frames hdr0 vas0 0x400000 boot"
    by (simp add: fresh_frames_def path_frames_def slot_defs run_defs)
  have fw: "fresh_frames hdr0 vas0 0x400000 walked"
    by (simp add: fresh_frames_def path_frames_def slot_defs run_defs)
  have v: "(0x100000::u64) OR ucast (ucast (pmap_prot_to_pte {PROT_WRITE}) :: 32 word) = 0x100003"
    by (simp add: pmap_prot_to_pte_def pte_defs)
  obtain b1 where mb: "pmap_map hdr0 vas0 0x400000 0x100000 {PROT_WRITE} boot = Inr (0, b1)"
    by (simp add: run_defs)
  obtain w1 where mw: "pmap_map hdr0 vas0 0x400000 0x100000 {PROT_WRITE} walked = Inr (0, w1)"
    by (simp add: run_defs)
  from map_unmap_lookup_not_found [of hdr0 vas0 "0x400000" boot "0x100000" "{PROT_WRITE}" b1]
    fb mb v
  have a: "\<exists>s1 s2. pmap_map hdr0 vas0 0x400000 0x100000 {PROT_WRITE} boot = Inr (0, s1)
         \<and> leaf_entry hdr0 vas0 0x400000 s1 = Some 0x100003
         \<and> pmap_unmap hdr0 vas0 0x400000 s1 = Inr (0, s2)
         \<and> pmap_lookup hdr0 vas0 0x400000 s2 = Inr (Inl 1)"
    by auto
  from map_unmap_lookup_not_found [of hdr0 vas0 "0x400000" walked "0x100000" "{PROT_WRITE}" w1]
    fw mw v
  have b: "\<exists>s1 s2. pmap_map hdr0 vas0 0x400000 0x100000 {PROT_WRITE} walked = Inr (0, s1)
         \<and> leaf_entry hdr0 vas0 0x400000 s1 = Some 0x100003
         \<and> pmap_unmap hdr0 vas0 0x400000 s1 = Inr (0, s2)
         \<and> pmap_lookup hdr0 vas0 0x400000 s2 = Inr (Inl 1)"
    by auto
  from fb fw a b show ?thesis by blast
qed

text \<open>
  The tables themselves stay in place: on the scenario machine, after \<open>pmap_map\<close> and
  \<open>pmap_unmap\<close> of \<open>0x400000\<close>, \<open>pmap_get_tbl\<close> without allocation still returns
  the leaf table at \<open>0xFFFF800000004000\<close>, and \<open>pmap_set_cache\<close> returns 0.
\<close>

lemma tables_stay_after_unmap:
  "Option.bind
     (Option.bind (state_after (pmap_map hdr0 vas0 0x400000 0x100000 {PROT_WRITE} boot))
        (state_after \<circ> pmap_unmap hdr0 vas0 0x400000))
     (returned \<circ> pmap_get_tbl hdr0 vas0 0x400000 False)
   = Some (Inr 0xFFFF800000004000)
   \<and> Option.bind
     (Option.bind (state_after (pmap_map hdr0 vas0 0x400000 0x100000 {PROT_WRITE} boot))
        (state_after \<circ> pmap_unmap hdr0 vas0 0x400000))
     (returned \<circ> pmap_set_cache hdr0 vas0 0x400000 (VM_CACHE_UC hdr0))
   = Some 0"
  by (simp add: run_defs)

section \<open>Creating an address space\<close>

text \<open>
  C6. When the allocator hands out a frame \<open>f\<close> that is not 0 and is page-aligned,
  \<open>pmap_create_vas\<close> takes exactly that one frame, returns the descriptor whose root
  is \<open>f\<close>, and leaves the new root table with entries 0 to 255 equal to 0 and entries
  256 to 511 equal to the entries of the active root table at the same index, as they
  were before the call. When the allocator has no frame (it returns 0), the call returns
  \<open>-1\<close>, writes no descriptor and leaves memory as it was.
\<close>

theorem pmap_create_vas_root:
  "(frames s = f # fs \<and> f \<noteq> 0 \<and> f AND 0xFFF = 0 \<longrightarrow>
      (\<exists>s'. pmap_create_vas k s =
               (Inr \<lparr>cr3_flags = 0, top_level = f, use_l5_paging = False, lock = 0\<rparr>, s')
          \<and> frames s' = fs
          \<and> (\<forall>i. i < 512 \<longrightarrow>
                mem s' (slot (PHYS_TO_VIRT k f) (of_nat i)) =
                  (if i < 256 then 0
                   else mem s (slot (PHYS_TO_VIRT k (top_level (pmap_read_vas s))) (of_nat i))))))
   \<and> (frames s = [] \<or> frames s = 0 # fs \<longrightarrow>
        (\<exists>s'. pmap_create_vas k s = (Inl (- 1), s') \<and> mem s' = mem s))"
proof (intro conjI impI)
  assume a: "frames s = f # fs \<and> f \<noteq> 0 \<and> f AND 0xFFF = 0"
  let ?src = "PHYS_TO_VIRT k (top_level (pmap_read_vas s))"
  let ?dest = "PHYS_TO_VIRT k f"
  let ?s' = "s\<lparr>frames := fs, mem := vas_copy_loop ?src ?dest 0 (mem s)\<rparr>"
  have c: "pmap_create_vas k s =
             (Inr \<lparr>cr3_flags = 0, top_level = f, use_l5_paging = False, lock = 0\<rparr>, ?s')"
    using a by (intro pmap_create_vas_ok) simp_all
  have nc: "j' = j" if "j < 512" "j' < 512" "slot ?dest (of_nat j') = slot ?src (of_nat j)"
    for j j' :: nat
    using slot_aligned_inj[of f "top_level (pmap_read_vas s)" j' j k] a that
    by (simp add: read_vas_top_aligned)
  have e: "mem ?s' (slot ?dest (of_nat i)) =
             (if i < 256 then 0 else mem s (slot ?src (of_nat i)))" if "i < 512" for i
    using vas_copy_loop_inside[of ?dest ?src 0 i "mem s"] nc that by simp
  show "\<exists>s'. pmap_create_vas k s =
               (Inr \<lparr>cr3_flags = 0, top_level = f, use_l5_paging = False, lock = 0\<rparr>, s')
          \<and> frames s' = fs
          \<and> (\<forall>i. i < 512 \<longrightarrow>
                mem s' (slot (PHYS_TO_VIRT k f) (of_nat i)) =
                  (if i < 256 then 0
                   else mem s (slot (PHYS_TO_VIRT k (top_level (pmap_read_vas s))) (of_nat i))))"
  proof (intro exI[of _ ?s'] conjI allI impI)
    show "pmap_create_vas k s =
             (Inr \<lparr>cr3_flags = 0, top_level = f, use_l5_paging = False, lock = 0\<rparr>, ?s')"
      by (rule c)
    show "frames ?s' = fs" by simp
    fix i :: nat assume "i < 512"
    then show "mem ?s' (slot ?dest (of_nat i)) =
             (if i < 256 then 0 else mem s (slot ?src (of_nat i)))" by (rule e)
  qed
next
  assume "frames s = [] \<or> frames s = 0 # fs"
  then show "\<exists>s'. pmap_create_vas k s = (Inl (- 1), s') \<and> mem s' = mem s"
    by (auto simp: pmap_create_vas_def vm_alloc_pageframe_def Let_def)
qed

theorem pmap_create_vas_root_witness:
  "frames kernel_root = 0x2000 # [0x3000, 0x4000] \<and> (0x2000::u64) \<noteq> 0 \<and> (0x2000::u64) AND 0xFFF = 0
   \<and> fst (pmap_create_vas hdr0 kernel_root)
       = Inr \<lparr>cr3_flags = 0, top_level = 0x2000, use_l5_paging = False, lock = 0\<rparr>
   \<and> mem (snd (pmap_create_vas hdr0 kernel_root)) (slot (PHYS_TO_VIRT hdr0 0x2000) (of_nat 300))
       = 0x5003
   \<and> frames walked = []
   \<and> fst (pmap_create_vas hdr0 walked) = Inl (- 1)"
proof -
  have h: "frames kernel_root = 0x2000 # [0x3000, 0x4000]" "(0x2000::u64) \<noteq> 0"
    "(0x2000::u64) AND 0xFFF = 0" "frames walked = []" "(300::nat) < 512" "\<not> (300::nat) < 256"
    by (simp_all add: kernel_root_def boot_def walked_def)
  have r: "mem kernel_root (slot (PHYS_TO_VIRT hdr0 (top_level (pmap_read_vas kernel_root)))
             (of_nat 300)) = 0x5003"
    by (simp add: kernel_root_def boot_def hdr0_def pmap_read_vas_def PHYS_TO_VIRT_def slot_def
          PTE_ADDR_MASK_def)
  from pmap_create_vas_root [of kernel_root "0x2000" "[0x3000, 0x4000]" hdr0] h
  obtain s' where c: "pmap_create_vas hdr0 kernel_root =
      (Inr \<lparr>cr3_flags = 0, top_level = 0x2000, use_l5_paging = False, lock = 0\<rparr>, s')"
    and e: "\<forall>i. i < 512 \<longrightarrow>
                mem s' (slot (PHYS_TO_VIRT hdr0 0x2000) (of_nat i)) =
                  (if i < 256 then 0
                   else mem kernel_root (slot (PHYS_TO_VIRT hdr0 (top_level (pmap_read_vas kernel_root)))
                          (of_nat i)))"
    by blast
  from e[rule_format, of 300] h c
  have a: "fst (pmap_create_vas hdr0 kernel_root)
       = Inr \<lparr>cr3_flags = 0, top_level = 0x2000, use_l5_paging = False, lock = 0\<rparr>
   \<and> mem (snd (pmap_create_vas hdr0 kernel_root)) (slot (PHYS_TO_VIRT hdr0 0x2000) (of_nat 300))
       = mem kernel_root (slot (PHYS_TO_VIRT hdr0 (top_level (pmap_read_vas kernel_root))) (of_nat 300))"
    by simp
  from pmap_create_vas_root [of walked f "[]" hdr0] h
  have b: "fst (pmap_create_vas hdr0 walked) = Inl (- 1)" by auto
  from a b h r show ?thesis by simp
qed

section \<open>Shootdown on two cores\<close>

text \<open>
  C7. With two known cores of different ids and core 0 executing, \<open>pmap_flush\<close>
  stores \<open>va\<close> into the pending-flush slot of core 1, then sends one interprocessor
  interrupt to all other cores with the shootdown vector, then flushes \<open>va\<close> on core
  0. Every \<open>pmap_map\<close>, \<open>pmap_unmap\<close> and \<open>pmap_set_cache\<close> that returns 0 ends
  that way: the slot of core 1 holds \<open>va\<close> and the trace has grown by exactly three
  events, in this order: the store into the slot of core 1, the interrupt, the flush on
  core 0. The handler, run by core 1, adds exactly 1 to its counter (starting from a
  fresh record on its first run), flushes the address found in its slot, then resets the
  slot to 0 and acknowledges the interrupt.
\<close>

theorem shootdown_on_two_cores:
  "cpus s = [c0, c1] \<and> curcpu s = 0 \<and> cpu_id c0 \<noteq> cpu_id c1 \<longrightarrow>
     pmap_flush va s =
       tlb_flush va (lapic_send_ipi 0 IPI_SHORTHAND_OTHERS SYSVEC_TLB
         (store_flush_ptr 1 va s))
   \<and> (\<forall>s'. pmap_map k vs va pa prot s = Inr (0, s')
             \<or> pmap_unmap k vs va s = Inr (0, s')
             \<or> pmap_set_cache k vs va type s = Inr (0, s') \<longrightarrow>
          cpus s' = [c0, c1\<lparr>tlb_flush_ptr := va\<rparr>] \<and> curcpu s' = 0
        \<and> trace s' = trace s @ [StoreFlushPtr 1 va,
                                LapicSendIpi 0 IPI_SHORTHAND_OTHERS SYSVEC_TLB, TlbFlush 0 va])
   \<and> (\<forall>t d. cpus t = [c0, d] \<and> curcpu t = 1 \<longrightarrow>
          cpus (tlb_shootdown_isr t) =
            [c0, d\<lparr>tlb_shootdown_info :=
                     Some ((case tlb_shootdown_info d of
                              None \<Rightarrow> (intr_info_alloc ''TLB-Shootdown'' ''LAPIC-IPI'')
                                        \<lparr>affinity := cpu_id d\<rparr>
                            | Some info \<Rightarrow> info)
                           \<lparr>count := (case tlb_shootdown_info d of
                                        None \<Rightarrow> 0 | Some info \<Rightarrow> count info) + 1\<rparr>),
                   tlb_flush_ptr := 0\<rparr>]
        \<and> trace (tlb_shootdown_isr t) =
            trace t
            @ (case tlb_shootdown_info d of
                 None \<Rightarrow> [IntrRegister ((intr_info_alloc ''TLB-Shootdown'' ''LAPIC-IPI'')
                                          \<lparr>affinity := cpu_id d\<rparr>)]
               | Some info \<Rightarrow> [])
            @ [TlbFlush 1 (tlb_flush_ptr d), StoreFlushPtr 1 0, LapicSendEoi 1])"
proof (intro impI, elim conjE)
  assume c: "cpus s = [c0, c1]" and z: "curcpu s = 0" and n: "cpu_id c0 \<noteq> cpu_id c1"
  have a: "pmap_flush va s =
       tlb_flush va (lapic_send_ipi 0 IPI_SHORTHAND_OTHERS SYSVEC_TLB
         (store_flush_ptr 1 va s))"
    using c z n by (rule pmap_flush_two_cores)
  have fl: "cpus s' = [c0, c1\<lparr>tlb_flush_ptr := va\<rparr>] \<and> curcpu s' = 0
        \<and> trace s' = trace s @ [StoreFlushPtr 1 va,
                                LapicSendIpi 0 IPI_SHORTHAND_OTHERS SYSVEC_TLB, TlbFlush 0 va]"
    if "\<exists>sm. s' = pmap_flush va sm \<and> cpus sm = cpus s \<and> curcpu sm = curcpu s
            \<and> trace sm = trace s" for s'
  proof -
    from that obtain sm where s': "s' = pmap_flush va sm" and sm: "cpus sm = [c0, c1]"
      "curcpu sm = 0" "trace sm = trace s" using c z by auto
    show ?thesis
      unfolding s' pmap_flush_two_cores[OF sm(1,2) n]
      by (simp add: tlb_flush_def lapic_send_ipi_def store_flush_ptr_def sm)
  qed
  have b: "cpus s' = [c0, c1\<lparr>tlb_flush_ptr := va\<rparr>] \<and> curcpu s' = 0
        \<and> trace s' = trace s @ [StoreFlushPtr 1 va,
                                LapicSendIpi 0 IPI_SHORTHAND_OTHERS SYSVEC_TLB, TlbFlush 0 va]"
    if "pmap_map k vs va pa prot s = Inr (0, s')
             \<or> pmap_unmap k vs va s = Inr (0, s')
             \<or> pmap_set_cache k vs va type s = Inr (0, s')" for s'
    using that
  proof (elim disjE)
    assume "pmap_map k vs va pa prot s = Inr (0, s')"
    then show ?thesis
      unfolding pmap_map_def Let_def by (intro fl pmap_modify_tbl_flushes)
  next
    assume "pmap_unmap k vs va s = Inr (0, s')"
    then show ?thesis
      unfolding pmap_unmap_def by (intro fl pmap_modify_tbl_flushes)
  next
    assume "pmap_set_cache k vs va type s = Inr (0, s')"
    then show ?thesis by (intro fl pmap_set_cache_flushes)
  qed
  show "pmap_flush va s =
       tlb_flush va (lapic_send_ipi 0 IPI_SHORTHAND_OTHERS SYSVEC_TLB
         (store_flush_ptr 1 va s))
   \<and> (\<forall>s'. pmap_map k vs va pa prot s = Inr (0, s')
             \<or> pmap_unmap k vs va s = Inr (0, s')
             \<or> pmap_set_cache k vs va type s = Inr (0, s') \<longrightarrow>
          cpus s' = [c0, c1\<lparr>tlb_flush_ptr := va\<rparr>] \<and> curcpu s' = 0
        \<and> trace s' = trace s @ [StoreFlushPtr 1 va,
                                LapicSendIpi 0 IPI_SHORTHAND_OTHERS SYSVEC_TLB, TlbFlush 0 va])
   \<and> (\<forall>t d. cpus t = [c0, d] \<and> curcpu t = 1 \<longrightarrow>
          cpus (tlb_shootdown_isr t) =
            [c0, d\<lparr>tlb_shootdown_info :=
                     Some ((case tlb_shootdown_info d of
                              None \<Rightarrow> (intr_info_alloc ''TLB-Shootdown'' ''LAPIC-IPI'')
                                        \<lparr>affinity := cpu_id d\<rparr>
                            | Some info \<Rightarrow> info)
                           \<lparr>count := (case tlb_shootdown_info d of
                                        None \<Rightarrow> 0 | Some info \<Rightarrow> count info) + 1\<rparr>),
                   tlb_flush_ptr := 0\<rparr>]
        \<and> trace (tlb_shootdown_isr t) =
            trace t
            @ (case tlb_shootdown_info d of
                 None \<Rightarrow> [IntrRegister ((intr_info_alloc ''TLB-Shootdown'' ''LAPIC-IPI'')
                                          \<lparr>affinity := cpu_id d\<rparr>)]
               | Some info \<Rightarrow> [])
            @ [TlbFlush 1 (tlb_flush_ptr d), StoreFlushPtr 1 0, LapicSendEoi 1])"
    using a b tlb_shootdown_isr_second_core by blast
qed

theorem shootdown_on_two_cores_witness:
  "cpus boot = [cpu0, cpu1] \<and> curcpu boot = 0 \<and> cpu_id cpu0 \<noteq> cpu_id cpu1
   \<and> (\<exists>s'. pmap_map hdr0 vas0 0x400000 0x100000 {PROT_WRITE} boot = Inr (0, s')
         \<and> cpus s' = [cpu0, cpu1\<lparr>tlb_flush_ptr := 0x400000\<rparr>]
         \<and> trace s' = [StoreFlushPtr 1 0x400000,
                       LapicSendIpi 0 IPI_SHORTHAND_OTHERS SYSVEC_TLB, TlbFlush 0 0x400000]
         \<and> map tlb_flush_ptr (cpus (tlb_shootdown_isr (s'\<lparr>curcpu := 1\<rparr>))) = [0, 0]
         \<and> map (map_option count \<circ> tlb_shootdown_info)
              (cpus (tlb_shootdown_isr (s'\<lparr>curcpu := 1\<rparr>))) = [None, Some 1])"
proof -
  have h: "cpus boot = [cpu0, cpu1]" "curcpu boot = 0" "cpu_id cpu0 \<noteq> cpu_id cpu1"
    by (simp_all add: boot_def cpu0_def cpu1_def)
  obtain s' where m: "pmap_map hdr0 vas0 0x400000 0x100000 {PROT_WRITE} boot = Inr (0, s')"
    by (simp add: run_defs)
  note t = shootdown_on_two_cores [of boot cpu0 cpu1 "0x400000" hdr0 vas0 "0x100000"
      "{PROT_WRITE}" 0, THEN mp, OF conjI[OF h(1) conjI[OF h(2) h(3)]]]
  from t m have s: "cpus s' = [cpu0, cpu1\<lparr>tlb_flush_ptr := 0x400000\<rparr>]"
    "trace s' = trace boot @ [StoreFlushPtr 1 0x400000,
        LapicSendIpi 0 IPI_SHORTHAND_OTHERS SYSVEC_TLB, TlbFlush 0 0x400000]"
    by blast+
  have i: "cpus (s'\<lparr>curcpu := 1\<rparr>) = [cpu0, cpu1\<lparr>tlb_flush_ptr := 0x400000\<rparr>]
           \<and> curcpu (s'\<lparr>curcpu := 1\<rparr>) = 1"
    using s by simp
  from t i have
    "cpus (tlb_shootdown_isr (s'\<lparr>curcpu := 1\<rparr>)) =
       [cpu0, cpu1\<lparr>tlb_flush_ptr := 0x400000\<rparr>
          \<lparr>tlb_shootdown_info :=
             Some ((case tlb_shootdown_info (cpu1\<lparr>tlb_flush_ptr := 0x400000\<rparr>) of
                      None \<Rightarrow> (intr_info_alloc ''TLB-Shootdown'' ''LAPIC-IPI'')
                                \<lparr>affinity := cpu_id (cpu1\<lparr>tlb_flush_ptr := 0x400000\<rparr>)\<rparr>
                    | Some info \<Rightarrow> info)
                   \<lparr>count := (case tlb_shootdown_info (cpu1\<lparr>tlb_flush_ptr := 0x400000\<rparr>) of
                                None \<Rightarrow> 0 | Some info \<Rightarrow> count info) + 1\<rparr>),
           tlb_flush_ptr := 0\<rparr>]"
    by blast
  then have r: "map tlb_flush_ptr (cpus (tlb_shootdown_isr (s'\<lparr>curcpu := 1\<rparr>))) = [0, 0]"
    "map (map_option count \<circ> tlb_shootdown_info)
              (cpus (tlb_shootdown_isr (s'\<lparr>curcpu := 1\<rparr>))) = [None, Some 1]"
    by (simp_all add: cpu0_def cpu1_def intr_info_alloc_def)
  from h m s r show ?thesis by (simp add: boot_def)
qed

end
